theory Spec2Isabelle
  imports
    Main
    "HOL-Library.Sublist"
    "HOL-Library.AList"
    "HOL-Library.Char_ord"
    "HOL-Library.List_Lexorder"
    "HOL-Library.Product_Lexorder"
begin

section \<open>Strings and errors\<close>

text \<open>
  Python's \<open>str\<close> is modelled as \<^typ>\<open>string\<close>; a \<^typ>\<open>char\<close> stands for a code point
  below 256 (Latin-1).  Exceptions are values of \<open>error\<close>; a function that may raise
  returns \<open>error + 'a\<close>.
\<close>

datatype error =
    ValueError string
  | HTTPException nat string
  | FileNotFoundError
  | FileExistsError
  | NotADirectoryError
  | IsADirectoryError
  | PermissionError
  | TimeoutExpired
  | OSError
  | ShutilError
  | BadZipFile

text \<open>Sequencing of computations that may raise.\<close>

definition bind :: "error + 'a \<Rightarrow> ('a \<Rightarrow> error + 'b) \<Rightarrow> error + 'b" where
  "bind m f = (case m of Inl e \<Rightarrow> Inl e | Inr x \<Rightarrow> f x)"

text \<open>\<open>str.isspace\<close> on the code points below 256.\<close>

definition py_isspace :: "char \<Rightarrow> bool" where
  "py_isspace c \<longleftrightarrow>
     c \<in> {CHR 0x09, CHR 0x0A, CHR 0x0B, CHR 0x0C, CHR 0x0D,
          CHR 0x1C, CHR 0x1D, CHR 0x1E, CHR 0x1F, CHR 0x20, CHR 0x85, CHR 0xA0}"

definition strip :: "string \<Rightarrow> string" where
  "strip s = rev (dropWhile py_isspace (rev (dropWhile py_isspace s)))"

definition startswith :: "string \<Rightarrow> string \<Rightarrow> bool" where
  "startswith s pre \<longleftrightarrow> prefix pre s"

definition endswith :: "string \<Rightarrow> string \<Rightarrow> bool" where
  "endswith s suf \<longleftrightarrow> suffix suf s"

text \<open>\<open>s.split(c)\<close> for a one-character separator: never the empty list.\<close>

fun split_sep :: "char \<Rightarrow> string \<Rightarrow> string list" where
  "split_sep c [] = [[]]"
| "split_sep c (x # xs) =
     (if x = c then [] # split_sep c xs
      else (case split_sep c xs of y # ys \<Rightarrow> (x # y) # ys | [] \<Rightarrow> [[x]]))"

text \<open>\<open>sep.join(xs)\<close>.\<close>

fun join_sep :: "string \<Rightarrow> string list \<Rightarrow> string" where
  "join_sep sep [] = []"
| "join_sep sep [x] = x"
| "join_sep sep (x # y # ys) = x @ sep @ join_sep sep (y # ys)"

section \<open>Paths\<close>

text \<open>
  An absolute, resolved path is the list of its components below \<open>/\<close>.  The model has
  no symbolic links, so \<open>Path.resolve\<close> is the lexical normalisation that
  \<open>os.path.realpath\<close> performs on such a tree; a leading \<open>//\<close> is read as \<open>/\<close>.
\<close>

type_synonym path = "string list"

text \<open>The components of a path string: empty ones and \<open>.\<close> are dropped by pathlib.\<close>

definition components :: "string \<Rightarrow> string list" where
  "components s = filter (\<lambda>x. x \<noteq> [] \<and> x \<noteq> ''.'') (split_sep CHR ''/'' s)"

text \<open>\<open>Path(s).parts\<close>: the root, when there is one, is a part of its own.\<close>

definition parts :: "string \<Rightarrow> string list" where
  "parts s = (if startswith s ''/'' then [''/''] else []) @ components s"

text \<open>\<open>base / s\<close>, not yet resolved: an absolute \<open>s\<close> replaces \<open>base\<close>.\<close>

definition joinpath :: "path \<Rightarrow> string \<Rightarrow> string list" where
  "joinpath base s = (if startswith s ''/'' then components s else base @ components s)"

text \<open>\<open>Path.resolve()\<close> without symbolic links: \<open>..\<close> steps up and stays at the root.\<close>

definition resolve :: "string list \<Rightarrow> path" where
  "resolve cs = foldl (\<lambda>acc c. if c = ''..'' then butlast acc else acc @ [c]) [] cs"

text \<open>\<open>str(path)\<close>.\<close>

definition path_str :: "path \<Rightarrow> string" where
  "path_str p = (if p = [] then ''/'' else concat (map (\<lambda>c. CHR ''/'' # c) p))"

section \<open>Validation of client paths (utils.py)\<close>

definition safe_char :: "char \<Rightarrow> bool" where
  "safe_char c \<longleftrightarrow>
     (CHR ''a'' \<le> c \<and> c \<le> CHR ''z'') \<or> (CHR ''A'' \<le> c \<and> c \<le> CHR ''Z'') \<or>
     (CHR ''0'' \<le> c \<and> c \<le> CHR ''9'') \<or> c \<in> {CHR ''_'', CHR ''-'', CHR ''.'', CHR ''/''}"

text \<open>
  \<open>SAFE_PATH_RE.match(p)\<close> for \<open>^[a-zA-Z0-9_\-./]*$\<close>: without \<open>re.MULTILINE\<close> the \<open>$\<close>
  also matches just before a newline that ends the string.
\<close>

definition SAFE_PATH_RE_match :: "string \<Rightarrow> bool" where
  "SAFE_PATH_RE_match p \<longleftrightarrow>
     list_all safe_char p \<or>
     (p \<noteq> [] \<and> last p = CHR 0x0A \<and> list_all safe_char (butlast p))"

definition ensure_safe_relpath :: "string option \<Rightarrow> error + string" where
  "ensure_safe_relpath po =
     (case po of
        None \<Rightarrow> Inl (ValueError ''Invalid path'')
      | Some p0 \<Rightarrow>
          (let p = strip p0 in
           if p = [] then Inl (ValueError ''Invalid path'')
           else if \<not> SAFE_PATH_RE_match p \<or> startswith p ''/'' \<or> ''..'' \<in> set (parts p)
             then Inl (ValueError ''Invalid path'')
           else Inr p))"

definition ensure_safe_relpath_allow_empty :: "string option \<Rightarrow> error + string" where
  "ensure_safe_relpath_allow_empty po =
     (if po = None \<or> po = Some [] then Inr [] else ensure_safe_relpath po)"


section \<open>The file system\<close>

text \<open>
  The state of the disk is a finite table from resolved paths to nodes.  A file has its
  bytes and its modification time (whole seconds, all the source ever reads of it through
  \<open>int(st_mtime)\<close>).  The modification time of a directory is not in the table: the
  operating system sets it whenever an entry of the directory is created, removed or
  renamed, and the one place where the source reads it takes it from the world
  (\<open>dir_mtime\<close> below).  The root \<open>/\<close> always exists.  The order of the table is the order in
  which the operating system lists entries.
\<close>

datatype node = File (content: string) (mtime: int) | Dir

type_synonym fs = "(path \<times> node) list"

definition node_at :: "fs \<Rightarrow> path \<Rightarrow> node option" where
  "node_at fs p = (if p = [] then Some Dir else map_of fs p)"

definition exists :: "fs \<Rightarrow> path \<Rightarrow> bool" where
  "exists fs p \<longleftrightarrow> node_at fs p \<noteq> None"

definition is_dir :: "fs \<Rightarrow> path \<Rightarrow> bool" where
  "is_dir fs p \<longleftrightarrow> node_at fs p = Some Dir"

definition is_file :: "fs \<Rightarrow> path \<Rightarrow> bool" where
  "is_file fs p \<longleftrightarrow> (case node_at fs p of Some (File _ _) \<Rightarrow> True | _ \<Rightarrow> False)"

text \<open>
  \<open>Path.mkdir(parents=True, exist_ok=True)\<close> on the components of a path as pathlib holds
  them, \<open>..\<close> included.  \<open>os.mkdir\<close> is tried on the whole path; when a directory on the way
  is missing, the parents are made first and \<open>os.mkdir\<close> is tried again.  The effect is a
  walk from the root in which \<open>..\<close> steps up and every missing directory is created.  A file
  in the way raises: \<open>NotADirectoryError\<close> from the first \<open>os.mkdir\<close> when the file is above
  the last component and nothing was missing before it (\<open>made\<close> is false), \<open>FileExistsError\<close>
  otherwise.
\<close>

fun mkdirs :: "bool \<Rightarrow> path \<Rightarrow> string list \<Rightarrow> fs \<Rightarrow> error + fs" where
  "mkdirs made cur [] fs = Inr fs"
| "mkdirs made cur (c # cs) fs =
     (if c = ''..'' then mkdirs made (butlast cur) cs fs
      else
        (case node_at fs (cur @ [c]) of
           Some Dir \<Rightarrow> mkdirs made (cur @ [c]) cs fs
         | Some (File _ _) \<Rightarrow> Inl (if cs = [] \<or> made then FileExistsError else NotADirectoryError)
         | None \<Rightarrow> mkdirs True (cur @ [c]) cs (AList.update (cur @ [c]) Dir fs)))"

definition mkdir_parents :: "string list \<Rightarrow> fs \<Rightarrow> error + fs" where
  "mkdir_parents p fs = mkdirs False [] p fs"

text \<open>
  The path that the operating system reaches for such components: every directory it
  passes through has to exist.  \<open>lookup\<close> is \<open>Path.exists\<close> on them, with the path found.
\<close>

fun os_walk :: "fs \<Rightarrow> path \<Rightarrow> string list \<Rightarrow> path option" where
  "os_walk fs cur [] = Some cur"
| "os_walk fs cur (c # cs) =
     (if is_dir fs cur then os_walk fs (if c = ''..'' then butlast cur else cur @ [c]) cs
      else None)"

definition lookup :: "fs \<Rightarrow> string list \<Rightarrow> path option" where
  "lookup fs cs =
     (case os_walk fs [] cs of
        Some p \<Rightarrow> if exists fs p then Some p else None
      | None \<Rightarrow> None)"

text \<open>\<open>Path.read_bytes()\<close> and \<open>Path.write_bytes(data)\<close> (also \<open>write_text\<close>).\<close>

definition read_bytes :: "fs \<Rightarrow> path \<Rightarrow> error + string" where
  "read_bytes fs p =
     (case node_at fs p of
        None \<Rightarrow> Inl FileNotFoundError
      | Some Dir \<Rightarrow> Inl IsADirectoryError
      | Some (File data _) \<Rightarrow> Inr data)"

definition write_bytes :: "int \<Rightarrow> path \<Rightarrow> string \<Rightarrow> fs \<Rightarrow> error + fs" where
  "write_bytes now p data fs =
     (case node_at fs p of
        Some Dir \<Rightarrow> Inl IsADirectoryError
      | _ \<Rightarrow>
         (case node_at fs (butlast p) of
            None \<Rightarrow> Inl FileNotFoundError
          | Some (File _ _) \<Rightarrow> Inl NotADirectoryError
          | Some Dir \<Rightarrow> Inr (AList.update p (File data now) fs)))"

text \<open>\<open>shutil.rmtree(p, ignore_errors=True)\<close>: on anything but a directory the error is ignored.\<close>

definition rmtree :: "path \<Rightarrow> fs \<Rightarrow> fs" where
  "rmtree p fs = (if is_dir fs p then filter (\<lambda>e. \<not> prefix p (fst e)) fs else fs)"

text \<open>\<open>Path.unlink(missing_ok=True)\<close>.\<close>

definition unlink :: "path \<Rightarrow> fs \<Rightarrow> error + fs" where
  "unlink p fs =
     (case node_at fs p of
        None \<Rightarrow> Inr fs
      | Some Dir \<Rightarrow> Inl IsADirectoryError
      | Some (File _ _) \<Rightarrow> Inr (AList.delete p fs))"

text \<open>\<open>os.utime(p, None)\<close>; on a directory the time it sets is not in the table.\<close>

definition utime :: "int \<Rightarrow> path \<Rightarrow> fs \<Rightarrow> error + fs" where
  "utime now p fs =
     (case node_at fs p of
        None \<Rightarrow> Inl FileNotFoundError
      | Some (File data _) \<Rightarrow> Inr (AList.update p (File data now) fs)
      | Some Dir \<Rightarrow> Inr fs)"

text \<open>\<open>Path.iterdir()\<close> and \<open>Path.rglob(pattern)\<close> for the patterns \<open>*\<close> and \<open>*suffix\<close>.\<close>

definition iterdir :: "fs \<Rightarrow> path \<Rightarrow> error + path list" where
  "iterdir fs d =
     (case node_at fs d of
        None \<Rightarrow> Inl FileNotFoundError
      | Some (File _ _) \<Rightarrow> Inl NotADirectoryError
      | Some Dir \<Rightarrow> Inr (filter (\<lambda>q. q \<noteq> [] \<and> butlast q = d) (map fst fs)))"

definition rglob :: "fs \<Rightarrow> path \<Rightarrow> string \<Rightarrow> path list" where
  "rglob fs d suf =
     (if is_dir fs d
      then filter (\<lambda>q. strict_prefix d q \<and> endswith (last q) suf) (map fst fs)
      else [])"

section \<open>Names, numbers and their text\<close>

text \<open>\<open>PurePath.suffix\<close>, \<open>stem\<close> and \<open>with_suffix\<close> of a final component.\<close>

definition suffix_of :: "string \<Rightarrow> string" where
  "suffix_of name =
     (let after = rev (takeWhile (\<lambda>c. c \<noteq> CHR ''.'') (rev name));
          i = length name - length after - 1
      in if CHR ''.'' \<in> set name \<and> 0 < i \<and> after \<noteq> [] then CHR ''.'' # after else [])"

definition stem :: "string \<Rightarrow> string" where
  "stem name = take (length name - length (suffix_of name)) name"

definition with_suffix :: "path \<Rightarrow> string \<Rightarrow> path" where
  "with_suffix p suf = butlast p @ [stem (last p) @ suf]"

text \<open>\<open>str.lower\<close> on the code points below 256.\<close>

definition py_lower :: "char \<Rightarrow> char" where
  "py_lower c =
     (let n = (of_char c :: nat)
      in if (65 \<le> n \<and> n \<le> 90) \<or> (192 \<le> n \<and> n \<le> 222 \<and> n \<noteq> 215) then char_of (n + 32) else c)"

definition is_zip_path :: "path \<Rightarrow> bool" where
  "is_zip_path p \<longleftrightarrow> p \<noteq> [] \<and> map py_lower (suffix_of (last p)) = ''.zip''"

text \<open>\<open>str(n)\<close> for an integer.\<close>

fun str_of_nat :: "nat \<Rightarrow> string" where
  "str_of_nat n =
     (if n < 10 then [''0123456789'' ! n] else str_of_nat (n div 10) @ [''0123456789'' ! (n mod 10)])"

declare str_of_nat.simps [simp del]

definition str_of_int :: "int \<Rightarrow> string" where
  "str_of_int i = (if i < 0 then CHR ''-'' # str_of_nat (nat (- i)) else str_of_nat (nat i))"

text \<open>
  \<open>int(s, 16)\<close>: surrounding whitespace, an optional sign, an optional \<open>0x\<close> prefix (with one
  underscore allowed after it), then hexadecimal digits with single underscores between
  them.  \<open>None\<close> stands for the \<open>ValueError\<close>.  The whitespace \<open>int\<close> skips is not that of
  \<open>str.strip\<close>: the code points above 127 that are spaces are first turned into blanks, and
  then only the six characters of C's \<open>isspace\<close> are skipped, so the separators
  \<open>0x1C\<close> to \<open>0x1F\<close> are not.
\<close>

definition int_isspace :: "char \<Rightarrow> bool" where
  "int_isspace c \<longleftrightarrow>
     c \<in> {CHR 0x09, CHR 0x0A, CHR 0x0B, CHR 0x0C, CHR 0x0D, CHR 0x20, CHR 0x85, CHR 0xA0}"

definition int_strip :: "string \<Rightarrow> string" where
  "int_strip s = rev (dropWhile int_isspace (rev (dropWhile int_isspace s)))"

definition hex_value :: "char \<Rightarrow> nat option" where
  "hex_value c =
     (let n = (of_char c :: nat)
      in if 48 \<le> n \<and> n \<le> 57 then Some (n - 48)
         else if 97 \<le> n \<and> n \<le> 102 then Some (n - 87)
         else if 65 \<le> n \<and> n \<le> 70 then Some (n - 55)
         else None)"

fun no_double_underscore :: "string \<Rightarrow> bool" where
  "no_double_underscore (a # b # cs) \<longleftrightarrow>
     \<not> (a = CHR ''_'' \<and> b = CHR ''_'') \<and> no_double_underscore (b # cs)"
| "no_double_underscore _ \<longleftrightarrow> True"

definition hex_digits_ok :: "string \<Rightarrow> bool" where
  "hex_digits_ok t \<longleftrightarrow>
     t \<noteq> [] \<and> hd t \<noteq> CHR ''_'' \<and> last t \<noteq> CHR ''_'' \<and>
     list_all (\<lambda>c. c = CHR ''_'' \<or> hex_value c \<noteq> None) t \<and> no_double_underscore t"

definition hex_number :: "string \<Rightarrow> int" where
  "hex_number t =
     foldl (\<lambda>a c. 16 * a + int (the (hex_value c))) 0 (filter (\<lambda>c. c \<noteq> CHR ''_'') t)"

definition py_int16 :: "string \<Rightarrow> int option" where
  "py_int16 s =
     (let t = int_strip s;
          negative = (t \<noteq> [] \<and> hd t = CHR ''-'');
          t1 = (if t \<noteq> [] \<and> (hd t = CHR ''-'' \<or> hd t = CHR ''+'') then tl t else t);
          t2 = (if startswith t1 ''0x'' \<or> startswith t1 ''0X''
                then (if startswith (drop 2 t1) ''_'' then drop 3 t1 else drop 2 t1)
                else t1)
      in if hex_digits_ok t2 then Some ((if negative then - 1 else 1) * hex_number t2) else None)"

text \<open>\<open>repr(s)\<close> of a string.\<close>

definition hex2 :: "nat \<Rightarrow> string" where
  "hex2 n = [''0123456789abcdef'' ! (n div 16), ''0123456789abcdef'' ! (n mod 16)]"

definition repr_char :: "char \<Rightarrow> char \<Rightarrow> string" where
  "repr_char quote c =
     (let n = (of_char c :: nat)
      in if c = quote \<or> c = CHR 0x5C then [CHR 0x5C, c]
         else if c = CHR 0x09 then [CHR 0x5C, CHR ''t'']
         else if c = CHR 0x0A then [CHR 0x5C, CHR ''n'']
         else if c = CHR 0x0D then [CHR 0x5C, CHR ''r'']
         else if n < 32 \<or> (127 \<le> n \<and> n \<le> 160) \<or> n = 173 then [CHR 0x5C, CHR ''x''] @ hex2 n
         else [c])"

definition py_repr :: "string \<Rightarrow> string" where
  "py_repr s =
     (let quote = (if CHR 0x27 \<in> set s \<and> CHR 0x22 \<notin> set s then CHR 0x22 else CHR 0x27)
      in [quote] @ concat (map (repr_char quote) s) @ [quote])"


section \<open>The world outside the program\<close>

text \<open>
  What the source takes from its environment: the jobs root (\<open>JOB_ROOT\<close>, resolved), the
  lookup of executables (\<open>shutil.which\<close>), the running of an external command
  (\<open>subprocess.run\<close> with captured output: it returns the exit code, the two streams and the
  disk as the command left it, or raises, \<open>TimeoutExpired\<close> among others), the \<open>unrpyc\<close>
  library (it returns the log of its context or raises, \<open>Inl\<close> carrying the \<open>repr\<close> of the
  exception), the reading of a zip archive's directory (\<open>infolist\<close>: names and data), and
  the modification time that the operating system keeps for a directory (\<open>dir_mtime\<close>).

  \<open>lazy_rglob\<close> is what \<open>source_dir.rglob("*")\<close> yields to the staging loop of
  \<open>pack_rpa_from_dir\<close> when the staging directory lies inside the source: \<open>rglob\<close> lists
  directories while the loop runs, so it meets the copies that the loop has made, and
  which paths it yields then depends on the order and the moment in which pathlib lists
  each directory.  It is the whole sequence of yielded paths, or the \<open>OSError\<close> with which
  the descent into copies of copies ends once a path has grown too long.  Its arguments
  are the source, the staging directory and the disk at the start of the loop.
\<close>

record world =
  JOB_ROOT :: path
  which :: "string \<Rightarrow> string option"
  subprocess_run ::
    "string list \<Rightarrow> path option \<Rightarrow> nat \<Rightarrow> fs \<Rightarrow> error + (int \<times> string \<times> string \<times> fs)"
  unrpyc_decompile_rpyc :: "path \<Rightarrow> bool \<Rightarrow> fs \<Rightarrow> (string + string list) \<times> fs"
  zip_infolist :: "string \<Rightarrow> (string \<times> string) list option"
  dir_mtime :: "path \<Rightarrow> int"
  lazy_rglob :: "path \<Rightarrow> path \<Rightarrow> fs \<Rightarrow> error + path list"

fun which_any :: "world \<Rightarrow> string list \<Rightarrow> string option" where
  "which_any w [] = None"
| "which_any w (n # ns) =
     (case which w n of Some p \<Rightarrow> (if p \<noteq> [] then Some p else which_any w ns)
      | None \<Rightarrow> which_any w ns)"

definition run_cmd ::
  "world \<Rightarrow> string list \<Rightarrow> path option \<Rightarrow> nat \<Rightarrow> fs \<Rightarrow> error + (int \<times> string \<times> string \<times> fs)" where
  "run_cmd w args cwd timeout_s fs = subprocess_run w args cwd timeout_s fs"

section \<open>Jobs (jobs.py)\<close>

record JobPaths =
  root :: path
  inp :: path
  out :: path
  meta :: path

definition job_paths :: "world \<Rightarrow> string \<Rightarrow> JobPaths" where
  "job_paths w job_id =
     (let r = resolve (joinpath (JOB_ROOT w) job_id)
      in \<lparr>root = r, inp = r @ [''input''], out = r @ [''output''], meta = r @ [''meta.json'']\<rparr>)"

definition touch_meta :: "world \<Rightarrow> int \<Rightarrow> string \<Rightarrow> fs \<Rightarrow> error + fs" where
  "touch_meta w now job_id fs =
     (let jp = job_paths w job_id
      in if exists fs (meta jp) then utime now (meta jp) fs
         else write_bytes now (meta jp) ''{}'' fs)"

text \<open>
  The sweep.  \<open>stat_fault\<close> is the operating system refusing a \<open>stat\<close> on a path (for one,
  \<open>PermissionError\<close>): \<open>Path.exists\<close> swallows only the errors that mean absence.
\<close>

definition os_stat :: "world \<Rightarrow> (path \<Rightarrow> error option) \<Rightarrow> fs \<Rightarrow> path \<Rightarrow> error + int" where
  "os_stat w stat_fault fs p =
     (case stat_fault p of
        Some e \<Rightarrow> Inl e
      | None \<Rightarrow>
          (case node_at fs p of
             None \<Rightarrow> Inl FileNotFoundError
           | Some (File _ t) \<Rightarrow> Inr t
           | Some Dir \<Rightarrow> Inr (dir_mtime w p)))"

definition path_exists :: "world \<Rightarrow> (path \<Rightarrow> error option) \<Rightarrow> fs \<Rightarrow> path \<Rightarrow> error + bool" where
  "path_exists w stat_fault fs p =
     (case os_stat w stat_fault fs p of
        Inr _ \<Rightarrow> Inr True
      | Inl FileNotFoundError \<Rightarrow> Inr False
      | Inl NotADirectoryError \<Rightarrow> Inr False
      | Inl e \<Rightarrow> Inl e)"

text \<open>The body of the \<open>try\<close> for one entry: the time stamp it is judged by.\<close>

definition job_ts :: "world \<Rightarrow> (path \<Rightarrow> error option) \<Rightarrow> fs \<Rightarrow> path \<Rightarrow> error + int" where
  "job_ts w stat_fault fs job_dir =
     bind (path_exists w stat_fault fs (job_dir @ [''meta.json'']))
       (\<lambda>e. if e then os_stat w stat_fault fs (job_dir @ [''meta.json''])
            else os_stat w stat_fault fs job_dir)"

fun cleanup_loop ::
  "world \<Rightarrow> (path \<Rightarrow> error option) \<Rightarrow> int \<Rightarrow> path list \<Rightarrow> nat \<times> fs \<Rightarrow> nat \<times> fs" where
  "cleanup_loop w stat_fault cutoff [] (removed, fs) = (removed, fs)"
| "cleanup_loop w stat_fault cutoff (job_dir # rest) (removed, fs) =
     (case job_ts w stat_fault fs job_dir of
        Inl e \<Rightarrow> cleanup_loop w stat_fault cutoff rest (removed, fs)
      | Inr ts \<Rightarrow>
          if ts < cutoff then cleanup_loop w stat_fault cutoff rest (removed + 1, rmtree job_dir fs)
          else cleanup_loop w stat_fault cutoff rest (removed, fs))"

definition cleanup_jobs ::
  "world \<Rightarrow> (path \<Rightarrow> error option) \<Rightarrow> int \<Rightarrow> int \<Rightarrow> fs \<Rightarrow> error + (nat \<times> fs)" where
  "cleanup_jobs w stat_fault now ttl_seconds fs =
     (let cutoff = now - ttl_seconds
      in bind (iterdir fs (JOB_ROOT w))
           (\<lambda>job_dirs. Inr (cleanup_loop w stat_fault cutoff job_dirs (0, fs))))"

section \<open>Zip expansion and tree snapshots (utils.py)\<close>

text \<open>
  \<open>ZipFile.extractall\<close> of the standard library, member by member: the name loses its empty,
  \<open>.\<close> and \<open>..\<close> components, the missing directories above are created, and a name that ends
  in \<open>/\<close> is a directory.
\<close>

definition zip_extract_member :: "int \<Rightarrow> path \<Rightarrow> string \<times> string \<Rightarrow> fs \<Rightarrow> error + fs" where
  "zip_extract_member now out_dir info fs =
     (let arcname = filter (\<lambda>x. x \<noteq> [] \<and> x \<noteq> ''.'' \<and> x \<noteq> ''..'') (split_sep CHR ''/'' (fst info));
          targetpath = out_dir @ arcname
      in bind (if exists fs (butlast targetpath) then Inr fs
               else mkdir_parents (butlast targetpath) fs)
           (\<lambda>fs1. if endswith (fst info) ''/''
                 then (if is_dir fs1 targetpath then Inr fs1
                       else if exists fs1 targetpath then Inl FileExistsError
                       else Inr (AList.update targetpath Dir fs1))
                 else write_bytes now targetpath (snd info) fs1))"

fun zip_extractall :: "int \<Rightarrow> path \<Rightarrow> (string \<times> string) list \<Rightarrow> fs \<Rightarrow> error + fs" where
  "zip_extractall now out_dir [] fs = Inr fs"
| "zip_extractall now out_dir (info # infos) fs =
     bind (zip_extract_member now out_dir info fs) (zip_extractall now out_dir infos)"

definition extract_zip :: "world \<Rightarrow> int \<Rightarrow> path \<Rightarrow> path \<Rightarrow> fs \<Rightarrow> error + fs" where
  "extract_zip w now zip_path out_dir fs =
     bind (read_bytes fs zip_path)
       (\<lambda>data. case zip_infolist w data of
           None \<Rightarrow> Inl BadZipFile
         | Some infos \<Rightarrow>
            (let out_root = resolve out_dir
             in if list_ex (\<lambda>info. \<not> startswith (path_str (resolve (joinpath out_dir (fst info))))
                                       (path_str out_root)) infos
                then Inl (ValueError ''Unsafe ZIP entry detected'')
                else zip_extractall now out_dir infos fs))"

text \<open>The end of the upload loop of \<open>create_job\<close> for one written file \<open>dest\<close>.\<close>

definition create_job_expand :: "world \<Rightarrow> int \<Rightarrow> JobPaths \<Rightarrow> path \<Rightarrow> fs \<Rightarrow> error + fs" where
  "create_job_expand w now jp dest fs =
     (if is_zip_path dest then bind (extract_zip w now dest (inp jp) fs) (unlink dest)
      else Inr fs)"

datatype tree_node =
    FileNode string string nat
  | DirNode string string "tree_node list"

definition listdir :: "fs \<Rightarrow> path \<Rightarrow> path list" where
  "listdir fs d = filter (\<lambda>q. q \<noteq> [] \<and> butlast q = d) (map fst fs)"

definition depth_bound :: "fs \<Rightarrow> nat" where
  "depth_bound fs = foldr (\<lambda>e m. max (length (fst e)) m) fs 0"

lemma depth_bound_ge: "(q, n) \<in> set fs \<Longrightarrow> length q \<le> depth_bound fs"
  by (induction fs) (auto simp: depth_bound_def le_max_iff_disj)

definition relative_str :: "path \<Rightarrow> path \<Rightarrow> string" where
  "relative_str p root_dir = join_sep ''/'' (drop (length root_dir) p)"

function node_for_dir :: "fs \<Rightarrow> path \<Rightarrow> path \<Rightarrow> tree_node" where
  "node_for_dir fs root_dir d =
     DirNode (if d \<noteq> root_dir then last d else ''/'')
             (if d \<noteq> root_dir then relative_str d root_dir else [])
             (map (\<lambda>p. if is_dir fs p then node_for_dir fs root_dir p
                       else FileNode (last p) (relative_str p root_dir)
                              (case node_at fs p of Some (File data _) \<Rightarrow> length data | _ \<Rightarrow> 0))
                  (sort_key (\<lambda>x. (is_file fs x, map py_lower (last x))) (listdir fs d)))"
  by pat_completeness auto
termination
proof (relation "measure (\<lambda>(fs, root_dir, d). Suc (depth_bound fs) - length d)")
  show "wf (measure (\<lambda>(fs, root_dir, d). Suc (depth_bound fs) - length d))" by simp
next
  fix fs :: fs and root_dir d x :: path
  assume x: "x \<in> set (sort_key (\<lambda>x. (is_file fs x, map py_lower (last x))) (listdir fs d))"
  from x have "x \<in> fst ` set fs" and "x \<noteq> []" and "butlast x = d"
    by (auto simp: listdir_def)
  then have "length x \<le> depth_bound fs" and "length x = Suc (length d)"
    using depth_bound_ge by auto
  then show "((fs, root_dir, x), (fs, root_dir, d))
      \<in> measure (\<lambda>(fs, root_dir, d). Suc (depth_bound fs) - length d)"
    by simp
qed

declare node_for_dir.simps [simp del]

definition walk_tree :: "fs \<Rightarrow> path \<Rightarrow> error + tree_node list" where
  "walk_tree fs root_dir =
     bind (iterdir fs root_dir) (\<lambda>_. Inr [node_for_dir fs root_dir root_dir])"


section \<open>Processors (processors/)\<close>

text \<open>The two captured streams of a finished command, each logged as one block when not blank.\<close>

definition stream_logs :: "string \<Rightarrow> string \<Rightarrow> string list" where
  "stream_logs sout serr =
     (if strip sout \<noteq> [] then [sout] else []) @ (if strip serr \<noteq> [] then [serr] else [])"

text \<open>\<open>decompile_rpyc_files\<close>: the state of the loop is the disk, \<open>produced\<close> and \<open>logs\<close>.\<close>

fun decompile_loop ::
  "world \<Rightarrow> int \<Rightarrow> bool \<Rightarrow> path \<Rightarrow> path list \<Rightarrow> fs \<times> path list \<times> string list \<Rightarrow>
   error + (fs \<times> path list \<times> string list)" where
  "decompile_loop w now try_harder work_dir [] st = Inr st"
| "decompile_loop w now try_harder work_dir (src # rest) (fs, produced, lg) =
     bind (read_bytes fs src) (\<lambda>data.
     bind (write_bytes now (work_dir @ [last src]) data fs) (\<lambda>fs1.
       case unrpyc_decompile_rpyc w (work_dir @ [last src]) try_harder fs1 of
         (Inr log_contents, fs2) \<Rightarrow>
           decompile_loop w now try_harder work_dir rest
             (fs2,
              if exists fs2 (with_suffix (work_dir @ [last src]) ''.rpy'')
              then produced @ [with_suffix (work_dir @ [last src]) ''.rpy''] else produced,
              lg @ log_contents)
       | (Inl e, fs2) \<Rightarrow>
           decompile_loop w now try_harder work_dir rest
             (fs2, produced, lg @ [''[unrpyc] error on '' @ last src @ '': '' @ e])))"

definition decompile_rpyc_files ::
  "world \<Rightarrow> int \<Rightarrow> path list \<Rightarrow> path \<Rightarrow> bool \<Rightarrow> fs \<Rightarrow> error + (fs \<times> path list \<times> string list)" where
  "decompile_rpyc_files w now rpyc_files out_dir try_harder fs =
     bind (mkdir_parents (out_dir @ [''decompiled'']) fs)
       (\<lambda>fs1. decompile_loop w now try_harder (out_dir @ [''decompiled'']) rpyc_files (fs1, [], []))"

text \<open>
  \<open>extract_rpa_with_unrpa\<close>.  A target is kept as pathlib has it: its components, with the
  \<open>..\<close> that the stem of an archive named \<open>...rpa\<close> is.
\<close>

definition unrpa_args :: "world \<Rightarrow> string list \<Rightarrow> path \<Rightarrow> string list" where
  "unrpa_args w target arc =
     (case which_any w [''unrpa''] of
        Some cmd \<Rightarrow> [cmd, ''-m'', ''-p'', path_str target, path_str arc]
      | None \<Rightarrow> [''python'', ''-m'', ''unrpa'', ''-m'', ''-p'', path_str target, path_str arc])"

fun unrpa_loop ::
  "world \<Rightarrow> int \<Rightarrow> path \<Rightarrow> path list \<Rightarrow> fs \<times> string list list \<times> string list \<Rightarrow>
   error + (fs \<times> string list list \<times> string list)" where
  "unrpa_loop w now out_dir [] st = Inr st"
| "unrpa_loop w now out_dir (arc # rest) (fs, produced_dirs, lg) =
     bind (mkdir_parents (joinpath out_dir (''rpa_extract/'' @ stem (last arc))) fs)
      (\<lambda>fs1.
     bind (run_cmd w (unrpa_args w (joinpath out_dir (''rpa_extract/'' @ stem (last arc))) arc)
             None 300 fs1)
      (\<lambda>(code, sout, serr, fs2).
        if code = 0
        then unrpa_loop w now out_dir rest
               (fs2, produced_dirs @ [joinpath out_dir (''rpa_extract/'' @ stem (last arc))],
                lg @ [''$ '' @ join_sep '' ''
                        (unrpa_args w (joinpath out_dir (''rpa_extract/'' @ stem (last arc))) arc)]
                   @ stream_logs sout serr)
        else unrpa_loop w now out_dir rest
               (fs2, produced_dirs,
                lg @ [''$ '' @ join_sep '' ''
                        (unrpa_args w (joinpath out_dir (''rpa_extract/'' @ stem (last arc))) arc)]
                   @ stream_logs sout serr
                   @ [''[unrpa] failed ('' @ str_of_int code @ '') for '' @ last arc])))"

definition extract_rpa_with_unrpa ::
  "world \<Rightarrow> int \<Rightarrow> path list \<Rightarrow> path \<Rightarrow> fs \<Rightarrow> error + (fs \<times> string list list \<times> string list)" where
  "extract_rpa_with_unrpa w now archives out_dir fs = unrpa_loop w now out_dir archives (fs, [], [])"

text \<open>\<open>extract_rpi_with_rpatool\<close> and its inner \<open>_try_extract\<close>.\<close>

definition try_extract ::
  "world \<Rightarrow> string \<Rightarrow> string list \<Rightarrow> string list \<Rightarrow> fs \<times> string list \<Rightarrow>
   error + (int \<times> fs \<times> string list)" where
  "try_extract w cmd target archive st =
     bind (run_cmd w [cmd, ''-o'', path_str target, ''-x'', path_str archive] None 300 (fst st))
       (\<lambda>(code, sout, serr, fs1).
          Inr (code, fs1,
               snd st @ [''$ '' @ join_sep '' '' [cmd, ''-o'', path_str target, ''-x'', path_str archive]]
                 @ stream_logs sout serr))"

definition rpi_finish ::
  "path list \<Rightarrow> string list \<Rightarrow> string list list \<Rightarrow> int \<times> fs \<times> string list \<Rightarrow>
   fs \<times> string list list \<times> string list" where
  "rpi_finish tried target produced_dirs r =
     (case r of (code, fs1, lg) \<Rightarrow>
        if code = 0 then (fs1, produced_dirs @ [target], lg)
        else (fs1, produced_dirs,
              lg @ [''[rpatool] failed ('' @ str_of_int code @ '') for '' @ join_sep '', '' (map last tried)]))"

fun rpatool_loop ::
  "world \<Rightarrow> int \<Rightarrow> string \<Rightarrow> path \<Rightarrow> path \<Rightarrow> path list \<Rightarrow> fs \<times> string list list \<times> string list \<Rightarrow>
   error + (fs \<times> string list list \<times> string list)" where
  "rpatool_loop w now cmd input_dir out_dir [] st = Inr st"
| "rpatool_loop w now cmd input_dir out_dir (rpi # rest) (fs, produced_dirs, lg) =
     bind (mkdir_parents (joinpath out_dir (''rpi_extract/'' @ stem (last rpi))) fs)
      (\<lambda>fs1.
     bind (try_extract w cmd (joinpath out_dir (''rpi_extract/'' @ stem (last rpi))) rpi (fs1, lg))
      (\<lambda>(code, fs2, lg2).
        if code \<noteq> 0 \<and> exists fs2 (resolve (joinpath input_dir (stem (last rpi) @ ''.rpa'')))
           \<and> joinpath input_dir (stem (last rpi) @ ''.rpa'') \<noteq> rpi
        then
          bind (try_extract w cmd (joinpath out_dir (''rpi_extract/'' @ stem (last rpi)))
                  (joinpath input_dir (stem (last rpi) @ ''.rpa''))
                  (fs2, lg2 @ [''[rpatool] .rpi extract failed; trying matching data archive: ''
                                @ last (joinpath input_dir (stem (last rpi) @ ''.rpa''))]))
            (\<lambda>r. rpatool_loop w now cmd input_dir out_dir rest
                    (rpi_finish [rpi, joinpath input_dir (stem (last rpi) @ ''.rpa'')]
                       (joinpath out_dir (''rpi_extract/'' @ stem (last rpi))) produced_dirs r))
        else rpatool_loop w now cmd input_dir out_dir rest
               (rpi_finish [rpi] (joinpath out_dir (''rpi_extract/'' @ stem (last rpi)))
                  produced_dirs (code, fs2, lg2))))"

definition extract_rpi_with_rpatool ::
  "world \<Rightarrow> int \<Rightarrow> path list \<Rightarrow> path \<Rightarrow> path \<Rightarrow> fs \<Rightarrow>
   error + (fs \<times> string list list \<times> string list)" where
  "extract_rpi_with_rpatool w now rpi_files input_dir out_dir fs =
     rpatool_loop w now (case which_any w [''rpatool''] of Some c \<Rightarrow> c | None \<Rightarrow> ''rpatool'')
       input_dir out_dir rpi_files (fs, [], [])"

text \<open>
  \<open>pack_rpa_from_dir\<close>.  The staging loop runs over the lazy \<open>rglob\<close> of the source.  As long as
  the staging directory is not inside the source, the loop writes nothing that the
  traversal lists, and the traversal yields what it would have yielded before the first
  copy.  With the staging directory inside the source (a pack from the output directory
  itself) the yielded paths are \<open>lazy_rglob\<close> of the world.  \<open>copy_loop\<close> is the loop over the
  yielded paths.  The archive name is any string of the client, so the archive path may
  hold \<open>..\<close> components.
\<close>

definition staged_sources :: "world \<Rightarrow> path \<Rightarrow> path \<Rightarrow> fs \<Rightarrow> error + path list" where
  "staged_sources w source_dir packroot fs =
     (if strict_prefix source_dir packroot then lazy_rglob w source_dir packroot fs
      else Inr (rglob fs source_dir []))"

fun copy_loop :: "int \<Rightarrow> path \<Rightarrow> path \<Rightarrow> path list \<Rightarrow> fs \<Rightarrow> error + fs" where
  "copy_loop now source_dir packroot [] fs = Inr fs"
| "copy_loop now source_dir packroot (src # rest) fs =
     (if is_dir fs src then copy_loop now source_dir packroot rest fs
      else
        bind (mkdir_parents (butlast (packroot @ drop (length source_dir) src)) fs) (\<lambda>fs1.
        bind (read_bytes fs1 src) (\<lambda>data.
        bind (write_bytes now (packroot @ drop (length source_dir) src) data fs1)
          (copy_loop now source_dir packroot rest))))"

definition pack_args ::
  "string \<Rightarrow> int \<Rightarrow> int \<Rightarrow> int \<Rightarrow> string list \<Rightarrow> string list \<Rightarrow> string list" where
  "pack_args cmd version key_int padding out_path entries =
     [cmd, if version = 2 then ''-2'' else ''-3'', ''-k'', str_of_int key_int,
      ''-p'', str_of_int padding, ''-c'', path_str out_path] @ entries"

definition pack_run ::
  "world \<Rightarrow> path \<Rightarrow> string list \<Rightarrow> string list \<Rightarrow> fs \<Rightarrow>
   error + (fs \<times> string list option \<times> string list)" where
  "pack_run w packroot out_path args fs =
     bind (run_cmd w args (Some packroot) 300 fs)
       (\<lambda>(code, sout, serr, fs1).
          if code \<noteq> 0 \<or> lookup fs1 out_path = None
          then Inr (fs1, None,
                 [''$ (cwd='' @ path_str packroot @ '') '' @ join_sep '' '' args]
                   @ stream_logs sout serr
                   @ [''[pack] rpatool failed ('' @ str_of_int code @ '').''])
          else Inr (fs1, Some out_path,
                 [''$ (cwd='' @ path_str packroot @ '') '' @ join_sep '' '' args]
                   @ stream_logs sout serr))"

definition pack_rpa_from_dir ::
  "world \<Rightarrow> int \<Rightarrow> path \<Rightarrow> path \<Rightarrow> string \<Rightarrow> int \<Rightarrow> string \<Rightarrow> int \<Rightarrow> fs \<Rightarrow>
   error + (fs \<times> string list option \<times> string list)" where
  "pack_rpa_from_dir w now source_dir out_dir archive_name version key_hex padding fs =
     (if \<not> exists fs source_dir \<or> \<not> is_dir fs source_dir
      then Inr (fs, None, [''[pack] Source directory not found: '' @ path_str source_dir])
      else
        bind (mkdir_parents (out_dir @ [''_packroot''])
                (if exists fs (out_dir @ [''_packroot'']) then rmtree (out_dir @ [''_packroot'']) fs
                 else fs)) (\<lambda>fs2.
        bind (staged_sources w source_dir (out_dir @ [''_packroot'']) fs2) (\<lambda>srcs.
        bind (copy_loop now source_dir (out_dir @ [''_packroot'']) srcs fs2) (\<lambda>fs3.
        bind (iterdir fs3 (out_dir @ [''_packroot''])) (\<lambda>staged.
          if map last staged = []
          then Inr (fs3, None, [''[pack] Source directory is empty.''])
          else
            bind (case lookup fs3 (joinpath out_dir archive_name) of
                    Some p \<Rightarrow> unlink p fs3
                  | None \<Rightarrow> Inr fs3) (\<lambda>fs4.
              case py_int16 key_hex of
                None \<Rightarrow>
                  Inr (fs4, None,
                       [''[pack] Invalid key_hex: '' @ py_repr key_hex @ '' (expected hex like 0x1234)''])
              | Some key_int \<Rightarrow>
                  pack_run w (out_dir @ [''_packroot'']) (joinpath out_dir archive_name)
                    (pack_args (case which_any w [''rpatool''] of Some c \<Rightarrow> c | None \<Rightarrow> ''rpatool'')
                       version key_int padding (joinpath out_dir archive_name) (map last staged))
                    fs4))))))"


section \<open>The service (main.py)\<close>

datatype mode = Auto | Decompile | Extract_rpa | Extract_rpi | Pack_rpa

datatype side = Input | Output

definition mode_str :: "mode \<Rightarrow> string" where
  "mode_str m =
     (case m of Auto \<Rightarrow> ''auto'' | Decompile \<Rightarrow> ''decompile'' | Extract_rpa \<Rightarrow> ''extract_rpa''
      | Extract_rpi \<Rightarrow> ''extract_rpi'' | Pack_rpa \<Rightarrow> ''pack_rpa'')"

record ProcessResponse =
  resp_job_id :: string
  resp_mode :: string
  resp_output_tree :: "tree_node list"
  resp_logs :: "string list"

text \<open>The pack parameters of a request, as \<open>process_job\<close> and \<open>RepackRequest\<close> carry them.\<close>

record pack_request =
  source_where :: side
  source_path :: string
  archive :: string
  version :: int
  key_hex :: string
  padding :: int

text \<open>
  The source directory of a pack: the validated path under the chosen side, resolved, and
  the string test of containment.  \<open>detail\<close> is the text of the 400 response.
\<close>

definition pack_source :: "JobPaths \<Rightarrow> pack_request \<Rightarrow> string \<Rightarrow> error + path" where
  "pack_source jp rq detail =
     (let b = (if source_where rq = Input then inp jp else out jp)
      in bind (ensure_safe_relpath_allow_empty (Some (source_path rq)))
           (\<lambda>rel. if \<not> startswith (path_str (resolve (joinpath b rel))) (path_str (resolve b))
                 then Inl (HTTPException 400 detail)
                 else Inr (resolve (joinpath b rel))))"

text \<open>The four blocks of \<open>process_job\<close>, each guarded by the mode; the state is the disk and \<open>logs\<close>.\<close>

definition decompile_block ::
  "world \<Rightarrow> int \<Rightarrow> JobPaths \<Rightarrow> mode \<Rightarrow> bool \<Rightarrow> path list \<Rightarrow> fs \<times> string list \<Rightarrow>
   error + (fs \<times> string list)" where
  "decompile_block w now jp md try_harder rpyc_files st =
     (if md \<in> {Auto, Decompile}
      then (if rpyc_files \<noteq> []
            then bind (decompile_rpyc_files w now rpyc_files (out jp) try_harder (fst st))
                   (\<lambda>(fs1, produced, l). Inr (fs1, snd st @ l))
            else Inr (fst st, snd st @ [''[decompile] No .rpyc files found.'']))
      else Inr st)"

definition extract_rpa_block ::
  "world \<Rightarrow> int \<Rightarrow> JobPaths \<Rightarrow> mode \<Rightarrow> path list \<Rightarrow> fs \<times> string list \<Rightarrow> error + (fs \<times> string list)" where
  "extract_rpa_block w now jp md rpa_files st =
     (if md \<in> {Auto, Extract_rpa}
      then (if rpa_files \<noteq> []
            then bind (extract_rpa_with_unrpa w now rpa_files (out jp) (fst st))
                   (\<lambda>(fs1, produced, l). Inr (fs1, snd st @ l))
            else Inr (fst st, snd st @ [''[extract_rpa] No .rpa files found.'']))
      else Inr st)"

definition extract_rpi_block ::
  "world \<Rightarrow> int \<Rightarrow> JobPaths \<Rightarrow> mode \<Rightarrow> path list \<Rightarrow> fs \<times> string list \<Rightarrow> error + (fs \<times> string list)" where
  "extract_rpi_block w now jp md rpi_files st =
     (if md \<in> {Auto, Extract_rpi}
      then (if rpi_files \<noteq> []
            then bind (extract_rpi_with_rpatool w now rpi_files (inp jp) (out jp) (fst st))
                   (\<lambda>(fs1, produced, l). Inr (fs1, snd st @ l))
            else Inr (fst st, snd st @ [''[extract_rpi] No .rpi files found.'']))
      else Inr st)"

definition pack_block ::
  "world \<Rightarrow> int \<Rightarrow> JobPaths \<Rightarrow> mode \<Rightarrow> pack_request \<Rightarrow> fs \<times> string list \<Rightarrow> error + (fs \<times> string list)" where
  "pack_block w now jp md rq st =
     (if md \<in> {Auto, Pack_rpa}
      then bind (pack_source jp rq ''Invalid pack_source_path'') (\<lambda>source_dir.
           bind (pack_rpa_from_dir w now source_dir (out jp) (archive rq) (version rq) (key_hex rq)
                   (padding rq) (fst st))
             (\<lambda>(fs1, out_path, l).
                Inr (fs1, snd st @ l @
                       (case out_path of Some p \<Rightarrow> [''[pack] created: '' @ last p] | None \<Rightarrow> []))))
      else Inr st)"

text \<open>The blocks in the order of the source, over candidate lists taken once.\<close>

definition process_modes ::
  "world \<Rightarrow> int \<Rightarrow> JobPaths \<Rightarrow> mode \<Rightarrow> bool \<Rightarrow> pack_request \<Rightarrow> path list \<Rightarrow> path list \<Rightarrow> path list \<Rightarrow>
   fs \<times> string list \<Rightarrow> error + (fs \<times> string list)" where
  "process_modes w now jp md try_harder rq rpyc_files rpa_files rpi_files st =
     bind (decompile_block w now jp md try_harder rpyc_files st) (\<lambda>st1.
     bind (extract_rpa_block w now jp md rpa_files st1) (\<lambda>st2.
     bind (extract_rpi_block w now jp md rpi_files st2) (\<lambda>st3.
     pack_block w now jp md rq st3)))"

text \<open>\<open>process_job\<close> from \<open>logs = []\<close> on: what runs once the output subtree has been replaced.\<close>

definition process_job_run ::
  "world \<Rightarrow> int \<Rightarrow> string \<Rightarrow> mode \<Rightarrow> bool \<Rightarrow> pack_request \<Rightarrow> fs \<Rightarrow> error + (fs \<times> ProcessResponse)" where
  "process_job_run w now job_id md try_harder rq fs =
     (let jp = job_paths w job_id
      in bind (touch_meta w now job_id fs) (\<lambda>fs1.
         bind (process_modes w now jp md try_harder rq
                 (rglob fs1 (inp jp) ''.rpyc'') (rglob fs1 (inp jp) ''.rpa'')
                 (rglob fs1 (inp jp) ''.rpi'') (fs1, [])) (\<lambda>(fs2, lg).
         bind (walk_tree fs2 (out jp)) (\<lambda>tree.
           Inr (fs2, \<lparr>resp_job_id = job_id, resp_mode = mode_str md,
                      resp_output_tree = tree, resp_logs = lg\<rparr>)))))"

text \<open>The replacement of the output subtree (\<open>rmtree\<close>, then \<open>mkdir\<close>).\<close>

definition replace_output :: "JobPaths \<Rightarrow> fs \<Rightarrow> error + fs" where
  "replace_output jp fs =
     mkdir_parents (out jp) (if exists fs (out jp) then rmtree (out jp) fs else fs)"

text \<open>
  \<open>process_job\<close>.  The bounds of \<open>pack_version\<close> and \<open>pack_padding\<close> are those declared in the
  signature, which the framework enforces with a 422 response before the body runs.
\<close>

definition process_job ::
  "world \<Rightarrow> int \<Rightarrow> string \<Rightarrow> mode \<Rightarrow> bool \<Rightarrow> pack_request \<Rightarrow> fs \<Rightarrow> error + (fs \<times> ProcessResponse)" where
  "process_job w now job_id md try_harder rq fs =
     (let jp = job_paths w job_id
      in if version rq < 2 \<or> 3 < version rq \<or> padding rq < 0 \<or> 1000000 < padding rq
         then Inl (HTTPException 422 ''Unprocessable Entity'')
         else if \<not> exists fs (root jp) then Inl (HTTPException 404 ''Job not found'')
         else bind (replace_output jp fs) (process_job_run w now job_id md try_harder rq))"


text \<open>
  \<open>shutil.move\<close> after the destination has been cleared: into an existing directory it
  moves under the source's name, otherwise it renames the source and all below it.
\<close>

definition rename :: "path \<Rightarrow> path \<Rightarrow> fs \<Rightarrow> fs" where
  "rename s d fs =
     map (\<lambda>e. if prefix s (fst e) then (d @ drop (length s) (fst e), snd e) else e)
       (filter (\<lambda>e. fst e \<noteq> d \<or> prefix s (fst e)) fs)"

definition shutil_move :: "path \<Rightarrow> path \<Rightarrow> fs \<Rightarrow> error + fs" where
  "shutil_move s d fs =
     (if is_dir fs d \<and> exists fs (d @ [last s]) then Inl ShutilError
      else if \<not> exists fs s then Inl FileNotFoundError
      else if is_dir fs d then Inr (rename s (d @ [last s]) fs)
      else if \<not> is_dir fs (butlast d) then Inl FileNotFoundError
      else Inr (rename s d fs))"

definition fs_move ::
  "world \<Rightarrow> int \<Rightarrow> string \<Rightarrow> side \<Rightarrow> string \<Rightarrow> string \<Rightarrow> bool \<Rightarrow> fs \<Rightarrow> error + fs" where
  "fs_move w now job_id whr src_s dst_s overwrite fs =
     (let jp = job_paths w job_id;
          r = (if whr = Output then out jp else inp jp)
      in if \<not> exists fs r then Inl (HTTPException 404 ''Job not found'')
         else
           bind (ensure_safe_relpath (Some src_s)) (\<lambda>src_rel.
           bind (ensure_safe_relpath (Some dst_s)) (\<lambda>dst_rel.
             let src = resolve (joinpath r src_rel);
                 dst = resolve (joinpath r dst_rel)
             in if \<not> startswith (path_str src) (path_str (resolve r)) \<or> \<not> exists fs src
                then Inl (HTTPException 404 ''Source not found'')
                else if \<not> startswith (path_str dst) (path_str (resolve r))
                then Inl (HTTPException 400 ''Invalid destination'')
                else if is_dir fs src \<and> startswith (path_str dst) (path_str src)
                then Inl (HTTPException 400 ''Cannot move a folder into itself'')
                else
                  bind (mkdir_parents (butlast dst) fs) (\<lambda>fs1.
                  bind (if exists fs1 dst
                        then (if \<not> overwrite then Inl (HTTPException 409 ''Destination exists'')
                              else if is_dir fs1 dst then Inr (rmtree dst fs1)
                              else unlink dst fs1)
                        else Inr fs1) (\<lambda>fs2.
                  bind (shutil_move src dst fs2) (touch_meta w now job_id))))))"




section \<open>Concrete worlds and disks\<close>

text \<open>
  States on which the theorems below are run.  In \<open>quiet_world\<close> no executable is found on
  the search path, every command exits with 0 and touches nothing, no byte string is a zip
  archive, every directory was last changed at 5, and a traversal that meets its own
  copies ends with a path too long.
\<close>

definition quiet_world :: world where
  "quiet_world =
     \<lparr>JOB_ROOT = [''jobs''], which = (\<lambda>_. None),
      subprocess_run = (\<lambda>args cwd t fs. Inr (0, [], [], fs)),
      unrpyc_decompile_rpyc = (\<lambda>p h fs. (Inr [], fs)),
      zip_infolist = (\<lambda>_. None), dir_mtime = (\<lambda>_. 5),
      lazy_rglob = (\<lambda>s d fs. Inl OSError)\<rparr>"

text \<open>A job whose output holds one directory \<open>a\<close>.\<close>

definition move_disk :: fs where
  "move_disk =
     [([''jobs''], Dir), ([''jobs'', ''j1''], Dir), ([''jobs'', ''j1'', ''output''], Dir),
      ([''jobs'', ''j1'', ''output'', ''a''], Dir)]"

text \<open>An uploaded archive with the single entry \<open>../input2/evil.txt\<close>.\<close>

definition zip_world :: world where
  "zip_world =
     quiet_world\<lparr>zip_infolist :=
       (\<lambda>data. if data = ''PK'' then Some [(''../input2/evil.txt'', ''x'')] else None)\<rparr>"

definition zip_disk :: fs where
  "zip_disk =
     [([''jobs''], Dir), ([''jobs'', ''j1''], Dir), ([''jobs'', ''j1'', ''input''], Dir),
      ([''jobs'', ''j1'', ''input'', ''up.zip''], File ''PK'' 0)]"


text \<open>A jobs root with the single job \<open>j1\<close>, not yet touched.\<close>

definition touch_disk :: fs where
  "touch_disk = [([''jobs''], Dir), ([''jobs'', ''j1''], Dir)]"


text \<open>
  The effective last-access time of a job directory as the specification words it: the
  modification time of the metadata file when there is one, otherwise that of the
  directory itself.
\<close>

definition mtime_of :: "world \<Rightarrow> fs \<Rightarrow> path \<Rightarrow> int option" where
  "mtime_of w fs p =
     (case node_at fs p of
        None \<Rightarrow> None
      | Some (File _ t) \<Rightarrow> Some t
      | Some Dir \<Rightarrow> Some (dir_mtime w p))"

definition last_access :: "world \<Rightarrow> fs \<Rightarrow> path \<Rightarrow> int option" where
  "last_access w fs job_dir =
     (case mtime_of w fs (job_dir @ [''meta.json'']) of
        Some t \<Rightarrow> Some t
      | None \<Rightarrow> mtime_of w fs job_dir)"

text \<open>An entry is swept when its \<open>try\<close> body reaches the comparison and the comparison holds.\<close>

definition expired :: "world \<Rightarrow> (path \<Rightarrow> error option) \<Rightarrow> int \<Rightarrow> fs \<Rightarrow> path \<Rightarrow> bool" where
  "expired w stat_fault cutoff fs job_dir \<longleftrightarrow>
     (case job_ts w stat_fault fs job_dir of Inr ts \<Rightarrow> ts < cutoff | Inl e \<Rightarrow> False)"

text \<open>
  Three jobs under the jobs root: \<open>old\<close> last touched at 10, \<open>new\<close> at 950, and \<open>locked\<close>,
  whose metadata file the operating system refuses to \<open>stat\<close>.
\<close>

definition sweep_disk :: fs where
  "sweep_disk =
     [([''jobs''], Dir),
      ([''jobs'', ''old''], Dir), ([''jobs'', ''old'', ''meta.json''], File ''{}'' 10),
      ([''jobs'', ''new''], Dir), ([''jobs'', ''new'', ''meta.json''], File ''{}'' 950),
      ([''jobs'', ''locked''], Dir), ([''jobs'', ''locked'', ''meta.json''], File ''{}'' 10)]"

definition sweep_fault :: "path \<Rightarrow> error option" where
  "sweep_fault p = (if p = [''jobs'', ''locked'', ''meta.json''] then Some PermissionError else None)"




text \<open>A job with one input file, and a pack request with a key that is not hexadecimal.\<close>

definition pack_disk :: fs where
  "pack_disk =
     [([''jobs''], Dir), ([''jobs'', ''j1''], Dir), ([''jobs'', ''j1'', ''meta.json''], File ''{}'' 0),
      ([''jobs'', ''j1'', ''input''], Dir), ([''jobs'', ''j1'', ''input'', ''a.txt''], File ''hello'' 0),
      ([''jobs'', ''j1'', ''output''], Dir)]"

definition bad_key_request :: pack_request where
  "bad_key_request =
     \<lparr>source_where = Input, source_path = [], archive = ''packed.rpa'', version = 3,
      key_hex = ''0xZZZZ'', padding = 0\<rparr>"


text \<open>A pack request with a hexadecimal key.\<close>

definition good_request :: pack_request where
  "good_request =
     \<lparr>source_where = Input, source_path = [], archive = ''packed.rpa'', version = 3,
      key_hex = ''0x1F'', padding = 0\<rparr>"


text \<open>A table is a tree: every entry is below the root and its parent is a directory.\<close>

definition wf_fs :: "fs \<Rightarrow> bool" where
  "wf_fs fs \<longleftrightarrow> list_all (\<lambda>e. fst e \<noteq> [] \<and> is_dir fs (butlast (fst e))) fs"

text \<open>The job of \<open>pack_disk\<close> after an earlier run left \<open>old.rpy\<close> in its output.\<close>

definition stale_disk :: fs where
  "stale_disk = pack_disk @ [([''jobs'', ''j1'', ''output'', ''old.rpy''], File ''old'' 1)]"


text \<open>A world whose every command runs into its timeout, and a job with one archive.\<close>

definition slow_world :: world where
  "slow_world = quiet_world\<lparr>subprocess_run := (\<lambda>args cwd t fs. Inl TimeoutExpired)\<rparr>"

definition rpa_disk :: fs where
  "rpa_disk =
     [([''jobs''], Dir), ([''jobs'', ''j1''], Dir), ([''jobs'', ''j1'', ''meta.json''], File ''{}'' 0),
      ([''jobs'', ''j1'', ''input''], Dir), ([''jobs'', ''j1'', ''input'', ''data.rpa''], File ''RPA'' 0),
      ([''jobs'', ''j1'', ''output''], Dir)]"




definition outcome :: "error + (fs \<times> 'a) \<Rightarrow> error + fs" where
  "outcome r = (case r of Inl e \<Rightarrow> Inl e | Inr x \<Rightarrow> Inr (fst x))"










text \<open>
  The validated relative path as the specification words it: the alphabet it may use,
  and what makes a string invalid.  These two definitions follow the specification, not
  the code; the theorems below compare them with \<open>ensure_safe_relpath\<close>.
\<close>

definition relpath_alphabet :: string where
  "relpath_alphabet =
     ''abcdefghijklmnopqrstuvwxyz'' @ ''ABCDEFGHIJKLMNOPQRSTUVWXYZ'' @ ''0123456789'' @ ''_-./''"

definition invalid_relpath :: "string \<Rightarrow> bool" where
  "invalid_relpath s \<longleftrightarrow>
     s = [] \<or> (\<exists>c \<in> set s. c \<notin> set relpath_alphabet) \<or> startswith s ''/'' \<or>
     ''..'' \<in> set (split_sep CHR ''/'' s)"


section \<open>Evaluation\<close>

text \<open>The definitions that running a concrete request unfolds.\<close>

lemmas path_defs = job_paths_def joinpath_def resolve_def components_def startswith_def
  endswith_def suffix_to_prefix path_str_def parts_def

lemmas fs_defs = node_at_def exists_def is_dir_def is_file_def read_bytes_def write_bytes_def
  mkdir_parents_def unlink_def utime_def rmtree_def iterdir_def rglob_def lookup_def

lemmas validate_defs = ensure_safe_relpath_def ensure_safe_relpath_allow_empty_def strip_def
  py_isspace_def SAFE_PATH_RE_match_def safe_char_def less_eq_char_def

lemma bind_simps [simp]: "bind (Inl e) f = Inl e" "bind (Inr x) f = f x"
  by (simp_all add: bind_def)

section \<open>Properties of path validation\<close>


lemma strip_Nil: "strip [] = []"
  by (simp add: strip_def)

lemma strip_ends:
  assumes "strip s \<noteq> []"
  shows "\<not> py_isspace (hd (strip s))" and "\<not> py_isspace (last (strip s))"
proof -
  define t where "t = dropWhile py_isspace s"
  define u where "u = dropWhile py_isspace (rev t)"
  have su: "strip s = rev u" by (simp add: strip_def t_def u_def)
  with assms have u: "u \<noteq> []" by simp
  then have "\<not> py_isspace (hd u)" unfolding u_def by (rule hd_dropWhile)
  then show "\<not> py_isspace (last (strip s))" using u by (simp add: su last_rev)
  from u have t: "t \<noteq> []" unfolding u_def by auto
  have "\<exists>ys. rev t = ys @ u" unfolding u_def
    by (metis takeWhile_dropWhile_id)
  then obtain ys where "rev t = ys @ u" ..
  then have "last u = last (rev t)" using u by simp
  then have "hd (strip s) = hd t" using u t by (simp add: su hd_rev last_rev)
  moreover have "\<not> py_isspace (hd t)" using t unfolding t_def by (rule hd_dropWhile)
  ultimately show "\<not> py_isspace (hd (strip s))" by simp
qed

lemma strip_id:
  assumes "s \<noteq> []" "\<not> py_isspace (hd s)" "\<not> py_isspace (last s)"
  shows "strip s = s"
proof -
  from assms have 1: "dropWhile py_isspace s = s" by (cases s) auto
  from assms have "rev s \<noteq> []" "\<not> py_isspace (hd (rev s))" by (auto simp: hd_rev)
  then have "dropWhile py_isspace (rev s) = rev s" by (cases "rev s") auto
  with 1 show ?thesis by (simp add: strip_def)
qed

lemma safe_char_not_space: "safe_char c \<Longrightarrow> \<not> py_isspace c"
  by (auto simp: safe_char_def py_isspace_def less_eq_char_def)

lemma dotdot_parts: "''..'' \<in> set (parts p) \<longleftrightarrow> ''..'' \<in> set (split_sep CHR ''/'' p)"
  by (auto simp: parts_def components_def)

lemma foldl_resolve_plain:
  "''..'' \<notin> set cs \<Longrightarrow>
   foldl (\<lambda>acc c. if c = ''..'' then butlast acc else acc @ [c]) acc cs = acc @ cs"
  by (induction cs arbitrary: acc) auto

lemma resolve_plain: "''..'' \<notin> set cs \<Longrightarrow> resolve cs = cs"
  by (simp add: resolve_def foldl_resolve_plain)

lemma path_str_prefix: "prefix a b \<Longrightarrow> prefix (path_str a) (path_str b)"
proof -
  assume "prefix a b"
  then obtain zs where b: "b = a @ zs" by (auto simp: prefix_def)
  show ?thesis
  proof (cases "a = []")
    case True
    then show ?thesis by (cases b) (simp_all add: path_str_def)
  next
    case False
    then show ?thesis by (simp add: path_str_def b)
  qed
qed

lemma lower_all: "list_all (\<lambda>n. char_of n \<in> set ''abcdefghijklmnopqrstuvwxyz'') [97..<123]"
  by (simp add: char_of_def bit_Suc_0_iff)

lemma lower_range:
  "(97::nat) \<le> n \<Longrightarrow> n \<le> 122 \<Longrightarrow> char_of n \<in> set ''abcdefghijklmnopqrstuvwxyz''"
proof -
  assume "97 \<le> n" "n \<le> 122"
  then have "n \<in> set [97..<123]" by (simp only: set_upt atLeastLessThan_iff) arith
  with lower_all show ?thesis by (simp only: list_all_iff)
qed

lemma upper_all: "list_all (\<lambda>n. char_of n \<in> set ''ABCDEFGHIJKLMNOPQRSTUVWXYZ'') [65..<91]"
  by (simp add: char_of_def bit_Suc_0_iff)

lemma upper_range:
  "(65::nat) \<le> n \<Longrightarrow> n \<le> 90 \<Longrightarrow> char_of n \<in> set ''ABCDEFGHIJKLMNOPQRSTUVWXYZ''"
proof -
  assume "65 \<le> n" "n \<le> 90"
  then have "n \<in> set [65..<91]" by (simp only: set_upt atLeastLessThan_iff) arith
  with upper_all show ?thesis by (simp only: list_all_iff)
qed

lemma digit_all: "list_all (\<lambda>n. char_of n \<in> set ''0123456789'') [48..<58]"
  by (simp add: char_of_def bit_Suc_0_iff)

lemma digit_range:
  "(48::nat) \<le> n \<Longrightarrow> n \<le> 57 \<Longrightarrow> char_of n \<in> set ''0123456789''"
proof -
  assume "48 \<le> n" "n \<le> 57"
  then have "n \<in> set [48..<58]" by (simp only: set_upt atLeastLessThan_iff) arith
  with digit_all show ?thesis by (simp only: list_all_iff)
qed

lemma alphabet_split: "set relpath_alphabet =
   set ''abcdefghijklmnopqrstuvwxyz'' \<union> set ''ABCDEFGHIJKLMNOPQRSTUVWXYZ'' \<union> set ''0123456789'' \<union>
   {CHR ''_'', CHR ''-'', CHR ''.'', CHR ''/''}"
  unfolding relpath_alphabet_def by (simp only: set_append set_simps Un_assoc)

lemma d0: "list_all safe_char relpath_alphabet"
  by (simp add: relpath_alphabet_def safe_char_def less_eq_char_def)

lemma safe_char_alphabet: "safe_char c \<longleftrightarrow> c \<in> set relpath_alphabet"
proof
  assume "c \<in> set relpath_alphabet"
  then show "safe_char c" using d0 by (simp only: list_all_iff)
next
  assume a: "safe_char c"
  define n :: nat where "n = of_char c"
  have c: "c = char_of n" by (simp add: n_def)
  from a have "(97 \<le> n \<and> n \<le> 122) \<or> (65 \<le> n \<and> n \<le> 90) \<or> (48 \<le> n \<and> n \<le> 57) \<or>
      c \<in> {CHR ''_'', CHR ''-'', CHR ''.'', CHR ''/''}"
    unfolding safe_char_def n_def by (simp add: less_eq_char_def)
  then show "c \<in> set relpath_alphabet"
    unfolding alphabet_split using lower_range upper_range digit_range c by blast
qed


lemma match_stripped:
  assumes "strip s \<noteq> []"
  shows "SAFE_PATH_RE_match (strip s) \<longleftrightarrow> list_all safe_char (strip s)"
proof -
  have "py_isspace (CHR 0x0A)" by (simp add: py_isspace_def)
  with strip_ends(2)[OF assms] have "last (strip s) \<noteq> CHR 0x0A" by metis
  then show ?thesis by (simp add: SAFE_PATH_RE_match_def)
qed

lemma ensure_safe_relpath_eq:
  "ensure_safe_relpath (Some p) =
     (if invalid_relpath (strip p) then Inl (ValueError ''Invalid path'') else Inr (strip p))"
proof (cases "strip p = []")
  case True
  then show ?thesis by (simp add: ensure_safe_relpath_def invalid_relpath_def)
next
  case False
  then show ?thesis
    by (simp add: ensure_safe_relpath_def invalid_relpath_def Let_def match_stripped
        dotdot_parts list_all_iff safe_char_alphabet)
qed

lemma valid_strip_id: "\<not> invalid_relpath p \<Longrightarrow> strip p = p"
proof -
  assume a: "\<not> invalid_relpath p"
  then have ne: "p \<noteq> []" and all: "\<forall>c \<in> set p. safe_char c"
    by (auto simp: invalid_relpath_def safe_char_alphabet)
  then have "safe_char (hd p)" "safe_char (last p)" by auto
  then show ?thesis using ne by (intro strip_id safe_char_not_space)
qed

lemma accepted_resolves:
  assumes "ensure_safe_relpath (Some p) = Inr r" and "''..'' \<notin> set base"
  shows "resolve (joinpath base r) = base @ components r"
proof -
  from assms(1) have r: "r = strip p" "\<not> invalid_relpath r"
    by (auto simp: ensure_safe_relpath_eq split: if_splits)
  then have "\<not> startswith r ''/''" "''..'' \<notin> set (components r)"
    by (auto simp: invalid_relpath_def components_def)
  with assms(2) show ?thesis by (simp add: joinpath_def resolve_plain)
qed

text \<open>
  Claim C1 (as amended).  \<open>ensure_safe_relpath\<close> first strips surrounding whitespace.  It
  raises \<open>ValueError\<close> exactly when the stripped string is empty, has a character outside
  the alphabet, begins with \<open>/\<close>, or has a \<open>..\<close> component; otherwise it returns the
  stripped string, which is the input itself when the input is valid as it stands.  An
  accepted path joined to a resolved base resolves to the base followed by the path's
  components: the base itself or a path below it, and the string test
  \<open>str(full).startswith(str(base))\<close> of the callers holds.
\<close>

theorem ensure_safe_relpath_contract:
  "ensure_safe_relpath (Some p) =
     (if invalid_relpath (strip p) then Inl (ValueError ''Invalid path'') else Inr (strip p))
   \<and> (\<not> invalid_relpath p \<longrightarrow> ensure_safe_relpath (Some p) = Inr p)
   \<and> (ensure_safe_relpath (Some p) = Inr r \<and> ''..'' \<notin> set base \<longrightarrow>
        resolve (joinpath base r) = base @ components r \<and>
        prefix base (resolve (joinpath base r)) \<and>
        startswith (path_str (resolve (joinpath base r))) (path_str base))"
proof (intro conjI impI)
  show "ensure_safe_relpath (Some p) =
     (if invalid_relpath (strip p) then Inl (ValueError ''Invalid path'') else Inr (strip p))"
    by (rule ensure_safe_relpath_eq)
  show "ensure_safe_relpath (Some p) = Inr p" if "\<not> invalid_relpath p"
    using that by (simp add: ensure_safe_relpath_eq valid_strip_id)
next
  assume a: "ensure_safe_relpath (Some p) = Inr r \<and> ''..'' \<notin> set base"
  then have e: "resolve (joinpath base r) = base @ components r"
    using accepted_resolves by blast
  then show "resolve (joinpath base r) = base @ components r" .
  from e show "prefix base (resolve (joinpath base r))" by simp
  then show "startswith (path_str (resolve (joinpath base r))) (path_str base)"
    unfolding startswith_def by (rule path_str_prefix)
qed

theorem ensure_safe_relpath_contract_witness:
  "ensure_safe_relpath (Some ''a/b.txt'') = Inr ''a/b.txt'' \<and>
   resolve (joinpath [''jobs'', ''j1'', ''output''] ''a/b.txt'') = [''jobs'', ''j1'', ''output'', ''a'', ''b.txt''] \<and>
   ensure_safe_relpath (Some ''a/../b'') = Inl (ValueError ''Invalid path'')"
  using ensure_safe_relpath_contract [of "''a/b.txt''" "''a/b.txt''" "[''jobs'', ''j1'', ''output'']"]
    ensure_safe_relpath_contract [of "''a/../b''"]
  by (simp add: invalid_relpath_def relpath_alphabet_def strip_def py_isspace_def startswith_def components_def)

text \<open>
  The claim as first stated fails twice: a string with a character outside the alphabet
  (a leading blank) is accepted, and the accepted path \<open>.\<close> resolves to the base itself.
\<close>

theorem ensure_safe_relpath_counterexample:
  "ensure_safe_relpath (Some '' a'') = Inr ''a'' \<and>
   ensure_safe_relpath (Some ''.'') = Inr ''.'' \<and>
   resolve (joinpath [''jobs'', ''j1'', ''output''] ''.'') = [''jobs'', ''j1'', ''output'']"
  by (simp add: ensure_safe_relpath_def strip_def py_isspace_def SAFE_PATH_RE_match_def safe_char_def
      less_eq_char_def startswith_def parts_def components_def joinpath_def resolve_def)

section \<open>Containment tests by string prefix\<close>

text \<open>
  Claim C7, at the input where the source departs from it.  In a job whose output holds
  the directory \<open>a\<close>, the move of \<open>a\<close> to the sibling name \<open>ab\<close> is refused with
  ``Cannot move a folder into itself'', though \<open>ab\<close> is neither \<open>a\<close> nor below it: the
  source compares the two paths as strings.
\<close>

theorem fs_move_sibling_rejected:
  "fs_move quiet_world 5 ''j1'' Output ''a'' ''ab'' False move_disk
     = Inl (HTTPException 400 ''Cannot move a folder into itself'')
   \<and> \<not> prefix [''jobs'', ''j1'', ''output'', ''a''] [''jobs'', ''j1'', ''output'', ''ab'']"
  by (simp add: fs_move_def quiet_world_def move_disk_def path_defs fs_defs validate_defs Let_def)

theorem fs_move_sibling_rejected_witness:
  "isl (fs_move quiet_world 5 ''j1'' Output ''a'' ''ab'' False move_disk)"
  using fs_move_sibling_rejected by simp

text \<open>
  Claim C2, at the input where the source departs from it.  The entry
  \<open>../input2/evil.txt\<close> of an archive expanded into \<open>/jobs/j1/input\<close> has the computed target
  \<open>/jobs/j1/input2/evil.txt\<close>, outside the destination directory; its text begins with the
  text of the destination, so the test lets it through, nothing is raised and the archive
  is extracted (by \<open>extractall\<close>, which drops the \<open>..\<close> and writes below the destination).
\<close>

theorem extract_zip_sibling_accepted:
  "extract_zip zip_world 5 [''jobs'', ''j1'', ''input'', ''up.zip''] [''jobs'', ''j1'', ''input''] zip_disk
     = Inr (zip_disk @ [([''jobs'', ''j1'', ''input'', ''input2''], Dir),
                        ([''jobs'', ''j1'', ''input'', ''input2'', ''evil.txt''], File ''x'' 5)])
   \<and> resolve (joinpath [''jobs'', ''j1'', ''input''] ''../input2/evil.txt'')
       = [''jobs'', ''j1'', ''input2'', ''evil.txt'']
   \<and> \<not> prefix [''jobs'', ''j1'', ''input''] [''jobs'', ''j1'', ''input2'', ''evil.txt'']"
  by (simp add: extract_zip_def zip_world_def quiet_world_def zip_disk_def path_defs fs_defs
      zip_extract_member_def Let_def)

theorem extract_zip_sibling_accepted_witness:
  "\<not> isl (extract_zip zip_world 5 [''jobs'', ''j1'', ''input'', ''up.zip'']
            [''jobs'', ''j1'', ''input''] zip_disk)"
  using extract_zip_sibling_accepted by simp


section \<open>Touching a job\<close>

lemma map_of_filter_fst:
  "map_of (filter (\<lambda>e. P (fst e)) fs) p = (if P p then map_of fs p else None)"
  by (induction fs) auto

lemma node_at_update:
  "p \<noteq> [] \<Longrightarrow> node_at (AList.update p n fs) q = (if q = p then Some n else node_at fs q)"
  by (simp add: node_at_def update_conv')

lemma touch_meta_cases:
  "touch_meta w now job_id fs =
     (let m = root (job_paths w job_id) @ [''meta.json'']
      in case node_at fs m of
           Some (File data t) \<Rightarrow> Inr (AList.update m (File data now) fs)
         | Some Dir \<Rightarrow> Inr fs
         | None \<Rightarrow>
            (case node_at fs (root (job_paths w job_id)) of
               None \<Rightarrow> Inl FileNotFoundError
             | Some (File data t) \<Rightarrow> Inl NotADirectoryError
             | Some Dir \<Rightarrow> Inr (AList.update m (File ''{}'' now) fs)))"
  by (simp add: touch_meta_def job_paths_def Let_def exists_def utime_def write_bytes_def
      split: option.splits node.splits)

text \<open>
  Claim C8 (as amended).  When the job directory exists, \<open>touch_meta\<close> returns; whenever it
  returns, the metadata file carries the current time (unless a directory lies at its
  path, whose time the table does not hold), and a second touch at the same time changes
  nothing more.  When the job directory and its metadata file are gone, \<open>touch_meta\<close>
  raises \<open>FileNotFoundError\<close>: nothing in it catches the failure of \<open>write_text\<close>.
\<close>

theorem touch_meta_contract:
  "(is_dir fs (root (job_paths w job_id)) \<longrightarrow> \<not> isl (touch_meta w now job_id fs))
   \<and> (touch_meta w now job_id fs = Inr fs' \<longrightarrow>
        (\<not> is_dir fs (meta (job_paths w job_id)) \<longrightarrow>
           (\<exists>data. node_at fs' (meta (job_paths w job_id)) = Some (File data now))) \<and>
        touch_meta w now job_id fs' = Inr fs')
   \<and> (\<not> exists fs (root (job_paths w job_id)) \<and> \<not> exists fs (meta (job_paths w job_id)) \<longrightarrow>
        touch_meta w now job_id fs = Inl FileNotFoundError)"
proof (intro conjI impI)
  define m where "m = root (job_paths w job_id) @ [''meta.json'']"
  have mm: "meta (job_paths w job_id) = m" by (simp add: m_def job_paths_def Let_def)
  have ne: "m \<noteq> []" by (simp add: m_def)
  show "\<not> isl (touch_meta w now job_id fs)" if "is_dir fs (root (job_paths w job_id))"
    using that by (auto simp: touch_meta_cases Let_def is_dir_def split: option.splits node.splits)
  show "touch_meta w now job_id fs = Inl FileNotFoundError"
    if "\<not> exists fs (root (job_paths w job_id)) \<and> \<not> exists fs (meta (job_paths w job_id))"
    using that by (simp add: touch_meta_cases Let_def mm m_def[symmetric] exists_def)
  assume r: "touch_meta w now job_id fs = Inr fs'"
  then have shape: "(node_at fs m = Some Dir \<and> fs' = fs) \<or>
      (\<exists>data. fs' = AList.update m (File data now) fs)"
    by (auto simp: touch_meta_cases Let_def m_def[symmetric] split: option.splits node.splits)
  show "\<exists>data. node_at fs' (meta (job_paths w job_id)) = Some (File data now)"
    if "\<not> is_dir fs (meta (job_paths w job_id))"
    using shape that ne by (auto simp: mm is_dir_def node_at_update)
  from shape show "touch_meta w now job_id fs' = Inr fs'"
  proof
    assume "node_at fs m = Some Dir \<and> fs' = fs"
    then show ?thesis by (simp add: touch_meta_cases Let_def m_def[symmetric])
  next
    assume "\<exists>data. fs' = AList.update m (File data now) fs"
    then obtain data where f: "fs' = AList.update m (File data now) fs" by blast
    then have "node_at fs' m = Some (File data now)" using ne by (simp add: node_at_update)
    then show ?thesis using f by (simp add: touch_meta_cases Let_def m_def[symmetric])
  qed
qed

theorem touch_meta_contract_witness:
  "touch_meta quiet_world 7 ''j1'' touch_disk
      = Inr (touch_disk @ [([''jobs'', ''j1'', ''meta.json''], File ''{}'' 7)])
   \<and> node_at (touch_disk @ [([''jobs'', ''j1'', ''meta.json''], File ''{}'' 7)])
        [''jobs'', ''j1'', ''meta.json''] = Some (File ''{}'' 7)
   \<and> touch_meta quiet_world 7 ''j1'' (touch_disk @ [([''jobs'', ''j1'', ''meta.json''], File ''{}'' 7)])
      = Inr (touch_disk @ [([''jobs'', ''j1'', ''meta.json''], File ''{}'' 7)])
   \<and> touch_meta quiet_world 7 ''gone'' touch_disk = Inl FileNotFoundError"
  using touch_meta_contract [of touch_disk quiet_world "''j1''" 7
      "touch_disk @ [([''jobs'', ''j1'', ''meta.json''], File ''{}'' 7)]"]
    touch_meta_contract [of touch_disk quiet_world "''gone''" 7]
  by (simp add: touch_meta_def quiet_world_def touch_disk_def path_defs fs_defs Let_def)

text \<open>
  The claim as first stated fails: with the workspace of \<open>j1\<close> gone, the touch raises.
\<close>

theorem touch_meta_counterexample:
  "touch_meta quiet_world 7 ''j1'' [([''jobs''], Dir)] = Inl FileNotFoundError"
  by (simp add: touch_meta_def quiet_world_def path_defs fs_defs Let_def)




section \<open>The sweep of expired jobs\<close>

lemma node_at_rmtree:
  "is_dir fs j \<Longrightarrow> node_at (rmtree j fs) p = (if prefix j p \<and> p \<noteq> [] then None else node_at fs p)"
  by (simp add: rmtree_def node_at_def map_of_filter_fst [where P = "\<lambda>q. \<not> prefix j q"])

lemma sibling_not_prefix:
  "length j = length j' \<Longrightarrow> j \<noteq> j' \<Longrightarrow> \<not> prefix j j' \<and> \<not> prefix j (j' @ [x])"
  by (auto simp: prefix_def)

lemma rmtree_sibling:
  assumes "is_dir fs j" "length j = length j'" "j \<noteq> j'"
  shows "node_at (rmtree j fs) j' = node_at fs j'"
    and "node_at (rmtree j fs) (j' @ [x]) = node_at fs (j' @ [x])"
proof -
  from sibling_not_prefix [OF assms(2,3)]
  have "\<not> prefix j j'" and "\<not> prefix j (j' @ [x])" by blast+
  then show "node_at (rmtree j fs) j' = node_at fs j'"
    and "node_at (rmtree j fs) (j' @ [x]) = node_at fs (j' @ [x])"
    by (simp_all only: node_at_rmtree [OF assms(1)] simp_thms if_False)
qed

lemma job_ts_rmtree:
  assumes "is_dir fs j" "length j = length j'" "j \<noteq> j'"
  shows "job_ts w F (rmtree j fs) j' = job_ts w F fs j'"
  unfolding job_ts_def path_exists_def os_stat_def rmtree_sibling [OF assms] by (rule refl)

lemma job_ts_plain:
  assumes "F j = None" "F (j @ [''meta.json'']) = None"
  shows "job_ts w F fs j = (case last_access w fs j of Some t \<Rightarrow> Inr t | None \<Rightarrow> Inl FileNotFoundError)"
  using assms
  by (simp add: job_ts_def path_exists_def os_stat_def last_access_def mtime_of_def
      split: option.splits node.splits)


lemma expired_rmtree:
  assumes "is_dir fs j" "length j = length j'" "j \<noteq> j'"
  shows "expired w F c (rmtree j fs) j' = expired w F c fs j'"
  by (simp add: expired_def job_ts_rmtree [OF assms])

lemma cleanup_loop_eq:
  assumes "\<forall>j \<in> set js. length j = k" and "distinct js" and "\<forall>j \<in> set js. is_dir fs j"
  shows "cleanup_loop w F c js (n, fs) =
           (n + length (filter (expired w F c fs) js),
            filter (\<lambda>e. \<not> (\<exists>j \<in> set (filter (expired w F c fs) js). prefix j (fst e))) fs)"
  using assms
proof (induction js arbitrary: n fs)
  case Nil
  then show ?case by simp
next
  case (Cons j js)
  show ?case
  proof (cases "expired w F c fs j")
    case False
    then have "cleanup_loop w F c (j # js) (n, fs) = cleanup_loop w F c js (n, fs)"
      by (auto simp: expired_def split: sum.splits)
    with False Cons show ?thesis by simp
  next
    case True
    then have step: "cleanup_loop w F c (j # js) (n, fs) = cleanup_loop w F c js (n + 1, rmtree j fs)"
      by (auto simp: expired_def split: sum.splits)
    have dirj: "is_dir fs j" using Cons.prems by simp
    have sib: "\<forall>j' \<in> set js. length j = length j' \<and> j \<noteq> j'" using Cons.prems by auto
    then have same: "\<forall>j' \<in> set js. expired w F c (rmtree j fs) j' = expired w F c fs j'"
      using expired_rmtree [OF dirj] by blast
    have dirs: "\<forall>j' \<in> set js. is_dir (rmtree j fs) j'"
      using sib Cons.prems(3) rmtree_sibling(1) [OF dirj] by (simp add: is_dir_def)
    have filt: "filter (expired w F c (rmtree j fs)) js = filter (expired w F c fs) js"
      using same by (intro filter_cong) auto
    have "cleanup_loop w F c js (n + 1, rmtree j fs) =
            (n + 1 + length (filter (expired w F c fs) js),
             filter (\<lambda>e. \<not> (\<exists>j' \<in> set (filter (expired w F c fs) js). prefix j' (fst e)))
               (rmtree j fs))"
      using Cons.IH [of "rmtree j fs" "n + 1"] Cons.prems dirs by (simp add: filt)
    then show ?thesis
      using True dirj unfolding step by (simp add: rmtree_def conj_commute del: cleanup_loop.simps)
  qed
qed


lemma same_length_prefixes: "prefix a p \<Longrightarrow> prefix b p \<Longrightarrow> length a = length b \<Longrightarrow> a = b"
  by (auto simp: prefix_def)

text \<open>
  Claim C9.  Over a well-formed table whose entries under the jobs root are directories,
  one sweep returns (it never raises once the jobs root is listed) the number of job
  directories that are gone afterwards; a job directory is removed with all below it exactly
  when its \<open>try\<close> body reached the comparison and found its time stamp below the cutoff
  \<open>now - ttl\<close>, and is left as it was otherwise; nothing outside the job directories
  changes.  Where the operating system refuses no \<open>stat\<close>, the time stamp is the effective
  last-access time of the specification; an entry whose handling raises is skipped and the
  iteration goes on.
\<close>

theorem cleanup_jobs_sweep:
  assumes dist: "distinct (map fst fs)"
    and listing: "iterdir fs (JOB_ROOT w) = Inr job_dirs"
    and dirs: "\<forall>j \<in> set job_dirs. is_dir fs j"
  shows "\<exists>n fs'. cleanup_jobs w F now ttl fs = Inr (n, fs')
      \<and> n = card {j \<in> set job_dirs. \<not> exists fs' j}
      \<and> (\<forall>j \<in> set job_dirs. \<forall>p. prefix j p \<longrightarrow>
            node_at fs' p = (if expired w F (now - ttl) fs j then None else node_at fs p))
      \<and> (\<forall>p. (\<forall>j \<in> set job_dirs. \<not> prefix j p) \<longrightarrow> node_at fs' p = node_at fs p)
      \<and> (\<forall>j \<in> set job_dirs. F j = None \<and> F (j @ [''meta.json'']) = None \<longrightarrow>
            (expired w F (now - ttl) fs j \<longleftrightarrow> (\<exists>t. last_access w fs j = Some t \<and> t < now - ttl)))
      \<and> (\<forall>j \<in> set job_dirs. isl (job_ts w F fs j) \<longrightarrow> \<not> expired w F (now - ttl) fs j)"
proof -
  define c where "c = now - ttl"
  define X where "X = filter (expired w F c fs) job_dirs"
  define fs' where "fs' = filter (\<lambda>e. \<not> (\<exists>j \<in> set X. prefix j (fst e))) fs"
  from listing have jd: "job_dirs = filter (\<lambda>q. q \<noteq> [] \<and> butlast q = JOB_ROOT w) (map fst fs)"
    by (auto simp: iterdir_def split: option.splits node.splits)
  then have distinct_jd: "distinct job_dirs" using dist by simp
  have len: "\<forall>j \<in> set job_dirs. length j = Suc (length (JOB_ROOT w))"
    unfolding jd by (auto simp: length_Suc_conv_rev) (metis append_butlast_last_id)
  have ne: "\<forall>j \<in> set job_dirs. j \<noteq> []" unfolding jd by simp
  have run: "cleanup_jobs w F now ttl fs = Inr (length X, fs')"
    using listing cleanup_loop_eq [OF len distinct_jd dirs, of w F c 0]
    by (simp add: cleanup_jobs_def Let_def c_def X_def fs'_def)
  have at: "node_at fs' p = (if p \<noteq> [] \<and> (\<exists>j \<in> set X. prefix j p) then None else node_at fs p)" for p
    using map_of_filter_fst [where P = "\<lambda>q. \<not> (\<exists>j \<in> set X. prefix j q)", of fs p]
    by (auto simp: fs'_def node_at_def)
  have below: "node_at fs' p = (if expired w F c fs j then None else node_at fs p)"
    if j: "j \<in> set job_dirs" and p: "prefix j p" for j p
  proof -
    from ne j p have pne: "p \<noteq> []" by auto
    have "(\<exists>j' \<in> set X. prefix j' p) \<longleftrightarrow> expired w F c fs j"
    proof
      assume "\<exists>j' \<in> set X. prefix j' p"
      then obtain j' where j': "j' \<in> set job_dirs" "expired w F c fs j'" "prefix j' p"
        by (auto simp: X_def)
      with len j have "length j' = length j" by simp
      with j' p have "j' = j" by (auto intro: same_length_prefixes)
      with j' show "expired w F c fs j" by simp
    next
      assume "expired w F c fs j"
      with j p show "\<exists>j' \<in> set X. prefix j' p" by (auto simp: X_def)
    qed
    with pne show ?thesis by (simp add: at)
  qed
  have outside: "node_at fs' p = node_at fs p" if "\<forall>j \<in> set job_dirs. \<not> prefix j p" for p
    using that by (auto simp: at X_def)
  have gone: "{j \<in> set job_dirs. \<not> exists fs' j} = set X"
  proof -
    have "\<not> exists fs' j \<longleftrightarrow> expired w F c fs j" if "j \<in> set job_dirs" for j
      using below [OF that, of j] dirs that
      by (auto simp: exists_def is_dir_def split: option.splits)
    then show ?thesis by (auto simp: X_def)
  qed
  have "distinct X" using distinct_jd by (simp add: X_def)
  then have "card (set X) = length X" by (rule distinct_card)
  then have count: "length X = card {j \<in> set job_dirs. \<not> exists fs' j}"
    unfolding gone by simp
  have plain: "expired w F c fs j \<longleftrightarrow> (\<exists>t. last_access w fs j = Some t \<and> t < c)"
    if "F j = None \<and> F (j @ [''meta.json'']) = None" for j
    using that by (auto simp: expired_def job_ts_plain split: option.splits)
  have raised: "\<not> expired w F c fs j" if "isl (job_ts w F fs j)" for j
    using that by (auto simp: expired_def split: sum.splits)
  show ?thesis
    using run count below outside plain raised unfolding c_def by blast
qed


theorem cleanup_jobs_sweep_witness:
  "cleanup_jobs quiet_world sweep_fault 1000 100 sweep_disk =
     Inr (1, [([''jobs''], Dir),
              ([''jobs'', ''new''], Dir), ([''jobs'', ''new'', ''meta.json''], File ''{}'' 950),
              ([''jobs'', ''locked''], Dir), ([''jobs'', ''locked'', ''meta.json''], File ''{}'' 10)])
   \<and> expired quiet_world sweep_fault 900 sweep_disk [''jobs'', ''old'']
   \<and> \<not> expired quiet_world sweep_fault 900 sweep_disk [''jobs'', ''new'']
   \<and> job_ts quiet_world sweep_fault sweep_disk [''jobs'', ''locked''] = Inl PermissionError"
proof -
  have d: "distinct (map fst sweep_disk)" by (simp add: sweep_disk_def)
  have l: "iterdir sweep_disk (JOB_ROOT quiet_world) =
             Inr [[''jobs'', ''old''], [''jobs'', ''new''], [''jobs'', ''locked'']]"
    by (simp add: sweep_disk_def quiet_world_def fs_defs)
  have a: "\<forall>j \<in> set [[''jobs'', ''old''], [''jobs'', ''new''], [''jobs'', ''locked'']]. is_dir sweep_disk j"
    by (simp add: sweep_disk_def fs_defs)
  have ts: "job_ts quiet_world sweep_fault sweep_disk [''jobs'', ''old''] = Inr 10"
    "job_ts quiet_world sweep_fault sweep_disk [''jobs'', ''new''] = Inr 950"
    "job_ts quiet_world sweep_fault sweep_disk [''jobs'', ''locked''] = Inl PermissionError"
    by (simp_all add: job_ts_def path_exists_def os_stat_def sweep_fault_def sweep_disk_def fs_defs)
  have run: "cleanup_jobs quiet_world sweep_fault 1000 100 sweep_disk =
     Inr (1, [([''jobs''], Dir),
              ([''jobs'', ''new''], Dir), ([''jobs'', ''new'', ''meta.json''], File ''{}'' 950),
              ([''jobs'', ''locked''], Dir), ([''jobs'', ''locked'', ''meta.json''], File ''{}'' 10)])"
    by (simp add: cleanup_jobs_def job_ts_def path_exists_def os_stat_def sweep_fault_def
        sweep_disk_def quiet_world_def fs_defs)
  from cleanup_jobs_sweep [OF d l a, of sweep_fault 1000 100] run ts
  show ?thesis by (simp add: expired_def)
qed


section \<open>What the file operations change\<close>


lemma mkdirs_keeps:
  "mkdirs made cur cs fs = Inr fs' \<Longrightarrow> node_at fs q = Some n \<Longrightarrow> node_at fs' q = Some n"
proof (induction cs arbitrary: made cur fs)
  case Nil
  then show ?case by simp
next
  case (Cons c cs)
  show ?case
  proof (cases "c = ''..''")
    case True
    with Cons.prems have "mkdirs made (butlast cur) cs fs = Inr fs'" by simp
    then show ?thesis using Cons.prems(2) by (rule Cons.IH)
  next
    case False
    show ?thesis
    proof (cases "node_at fs (cur @ [c])")
      case None
      with False Cons.prems
      have "mkdirs True (cur @ [c]) cs (AList.update (cur @ [c]) Dir fs) = Inr fs'"
        by simp
      moreover have "node_at (AList.update (cur @ [c]) Dir fs) q = Some n"
        using None Cons.prems(2) by (auto simp: node_at_update)
      ultimately show ?thesis by (rule Cons.IH)
    next
      case (Some m)
      with False Cons.prems show ?thesis by (cases m) (auto intro: Cons.IH)
    qed
  qed
qed


text \<open>Without \<open>..\<close> components the directories made are those of the path itself.\<close>

lemma mkdirs_new_at:
  "mkdirs made cur cs fs = Inr fs' \<Longrightarrow> ''..'' \<notin> set cs \<Longrightarrow> node_at fs' q = Some n \<Longrightarrow>
   node_at fs q = Some n \<or> (n = Dir \<and> strict_prefix cur q \<and> prefix q (cur @ cs))"
proof (induction cs arbitrary: made cur fs)
  case Nil
  then show ?case by simp
next
  case (Cons c cs)
  from Cons.prems(2) have c: "c \<noteq> ''..''" and cs: "''..'' \<notin> set cs" by auto
  show ?case
  proof (cases "node_at fs (cur @ [c])")
    case None
    with c Cons.prems
    have "mkdirs True (cur @ [c]) cs (AList.update (cur @ [c]) Dir fs) = Inr fs'"
      by simp
    from Cons.IH [OF this cs Cons.prems(3)]
    show ?thesis by (auto simp: node_at_update strict_prefix_def prefix_def split: if_splits)
  next
    case (Some m)
    with c Cons.prems have "mkdirs made (cur @ [c]) cs fs = Inr fs'"
      by (cases m) (auto split: if_splits)
    from Cons.IH [OF this cs Cons.prems(3)]
    show ?thesis by (auto simp: strict_prefix_def prefix_def)
  qed
qed

lemma mkdirs_is_dir:
  "mkdirs made cur cs fs = Inr fs' \<Longrightarrow> ''..'' \<notin> set cs \<Longrightarrow> is_dir fs cur \<Longrightarrow>
   is_dir fs' (cur @ cs)"
proof (induction cs arbitrary: made cur fs)
  case Nil
  then show ?case by simp
next
  case (Cons c cs)
  from Cons.prems(2) have c: "c \<noteq> ''..''" and cs: "''..'' \<notin> set cs" by auto
  show ?case
  proof (cases "node_at fs (cur @ [c])")
    case None
    with c Cons.prems
    have "mkdirs True (cur @ [c]) cs (AList.update (cur @ [c]) Dir fs) = Inr fs'"
      by simp
    moreover have "is_dir (AList.update (cur @ [c]) Dir fs) (cur @ [c])"
      by (simp add: is_dir_def node_at_update)
    ultimately have "is_dir fs' ((cur @ [c]) @ cs)" using cs by (intro Cons.IH)
    then show ?thesis by simp
  next
    case (Some m)
    with c Cons.prems have "mkdirs made (cur @ [c]) cs fs = Inr fs'" and "is_dir fs (cur @ [c])"
      by (cases m; auto simp: is_dir_def split: if_splits)+
    then have "is_dir fs' ((cur @ [c]) @ cs)" using cs by (intro Cons.IH)
    then show ?thesis by simp
  qed
qed

lemma mkdir_parents_keeps:
  "mkdir_parents p fs = Inr fs' \<Longrightarrow> node_at fs q = Some n \<Longrightarrow> node_at fs' q = Some n"
  unfolding mkdir_parents_def by (rule mkdirs_keeps)


lemma mkdir_parents_new_at:
  "mkdir_parents p fs = Inr fs' \<Longrightarrow> ''..'' \<notin> set p \<Longrightarrow> node_at fs' q = Some n \<Longrightarrow>
   node_at fs q = Some n \<or> (n = Dir \<and> prefix q p)"
  unfolding mkdir_parents_def using mkdirs_new_at [of False "[]" p fs fs' q n] by auto

lemma mkdir_parents_is_dir:
  "mkdir_parents p fs = Inr fs' \<Longrightarrow> ''..'' \<notin> set p \<Longrightarrow> is_dir fs' p"
  unfolding mkdir_parents_def using mkdirs_is_dir [of False "[]" p fs fs']
  by (simp add: is_dir_def node_at_def)

lemma resolve_no_parent: "''..'' \<notin> set (resolve cs)"
proof -
  have "''..'' \<notin> set acc \<Longrightarrow>
        ''..'' \<notin> set (foldl (\<lambda>acc c. if c = ''..'' then butlast acc else acc @ [c]) acc cs)"
    for acc
  proof (induction cs arbitrary: acc)
    case Nil
    then show ?case by simp
  next
    case (Cons c cs)
    show ?case
    proof (cases "c = ''..''")
      case True
      from Cons.prems have "''..'' \<notin> set (butlast acc)" by (auto dest: in_set_butlastD)
      from Cons.IH [OF this] True show ?thesis by simp
    next
      case False
      with Cons.prems have "''..'' \<notin> set (acc @ [c])" by simp
      from Cons.IH [OF this] False show ?thesis by simp
    qed
  qed
  then show ?thesis by (simp add: resolve_def)
qed

lemma out_no_parent: "''..'' \<notin> set (out (job_paths w job_id))"
  using resolve_no_parent [of "joinpath (JOB_ROOT w) job_id"]
  by (simp add: job_paths_def Let_def)

lemma write_bytes_at:
  "write_bytes now p data fs = Inr fs' \<Longrightarrow>
   node_at fs' q = (if q = p then Some (File data now) else node_at fs q)"
  by (cases "p = []")
    (auto simp: write_bytes_def node_at_update node_at_def [of fs "[]"]
      split: option.splits node.splits)





section \<open>An unparsable key\<close>







lemma bind_eq_Inr: "bind m f = Inr y \<longleftrightarrow> (\<exists>x. m = Inr x \<and> f x = Inr y)"
  by (cases m) simp_all


lemma which_any_subprocess [simp]:
  "which_any (w\<lparr>subprocess_run := r\<rparr>) ns = which_any w ns"
  by (induction ns) (auto split: option.splits)
















lemma pack_source_subprocess [simp]:
  "pack_source (job_paths (w\<lparr>subprocess_run := r\<rparr>) job) rq d = pack_source (job_paths w job) rq d"
  by (simp add: job_paths_def)

lemma pack_source_key [simp]: "pack_source jp (rq\<lparr>key_hex := k\<rparr>) d = pack_source jp rq d"
  by (simp add: pack_source_def)


lemma process_modes_pack:
  "process_modes w now jp Pack_rpa th rq a b c st = pack_block w now jp Pack_rpa rq st"
  by (simp add: process_modes_def decompile_block_def extract_rpa_block_def extract_rpi_block_def)










lemma bad_key_unparsable: "py_int16 (key_hex bad_key_request) = None"
  by (simp add: bad_key_request_def py_int16_def int_strip_def int_isspace_def startswith_def
      hex_digits_ok_def hex_value_def)









section \<open>The mode auto\<close>

lemma bind_Inr_right [simp]: "bind m Inr = m"
  by (cases m) simp_all

lemma process_modes_decompile:
  "process_modes w now jp Decompile th rq a b c st = decompile_block w now jp Auto th a st"
  by (simp add: process_modes_def decompile_block_def extract_rpa_block_def extract_rpi_block_def
      pack_block_def)

lemma process_modes_extract_rpa:
  "process_modes w now jp Extract_rpa th rq a b c st = extract_rpa_block w now jp Auto b st"
  by (simp add: process_modes_def decompile_block_def extract_rpa_block_def extract_rpi_block_def
      pack_block_def)

lemma process_modes_extract_rpi:
  "process_modes w now jp Extract_rpi th rq a b c st = extract_rpi_block w now jp Auto c st"
  by (simp add: process_modes_def decompile_block_def extract_rpa_block_def extract_rpi_block_def
      pack_block_def)

lemma process_modes_pack_auto:
  "process_modes w now jp Pack_rpa th rq a b c st = pack_block w now jp Auto rq st"
  by (simp add: process_modes_pack pack_block_def)

lemma process_modes_auto_seq:
  "process_modes w now jp Auto th rq a b c st =
     bind (process_modes w now jp Decompile th rq a b c st) (\<lambda>st1.
     bind (process_modes w now jp Extract_rpa th rq a b c st1) (\<lambda>st2.
     bind (process_modes w now jp Extract_rpi th rq a b c st2) (\<lambda>st3.
     process_modes w now jp Pack_rpa th rq a b c st3)))"
  unfolding process_modes_decompile process_modes_extract_rpa process_modes_extract_rpi
    process_modes_pack_auto
  by (simp add: process_modes_def)

text \<open>A block appends to the log it is given: its own lines do not depend on that log.\<close>

definition appending :: "(fs \<times> string list \<Rightarrow> error + (fs \<times> string list)) \<Rightarrow> bool" where
  "appending f \<longleftrightarrow>
     (\<forall>fs lg. f (fs, lg) = bind (f (fs, [])) (\<lambda>r. Inr (fst r, lg @ snd r)))"

lemma appendingD:
  "appending f \<Longrightarrow> f (fs, lg) = bind (f (fs, [])) (\<lambda>r. Inr (fst r, lg @ snd r))"
  unfolding appending_def by (erule allE [of _ fs], erule allE [of _ lg])

lemma appending_bind:
  assumes "appending f" "appending g"
  shows "appending (\<lambda>st. bind (f st) g)"
  unfolding appending_def
proof (intro allI)
  fix fs lg
  note f1 = appendingD [OF assms(1), of fs lg]
  show "bind (f (fs, lg)) g = bind (bind (f (fs, [])) g) (\<lambda>r. Inr (fst r, lg @ snd r))"
  proof (cases "f (fs, [])")
    case (Inl e)
    with f1 have "f (fs, lg) = Inl e" by (simp only: bind_simps)
    with Inl show ?thesis by (simp only: bind_simps)
  next
    case (Inr r)
    obtain fs1 l1 where r: "r = (fs1, l1)" by (cases r)
    from f1 Inr r have 1: "f (fs, lg) = Inr (fs1, lg @ l1)"
      by (simp only: bind_simps fst_conv snd_conv)
    note 2 = appendingD [OF assms(2), of fs1 "lg @ l1"]
    note 3 = appendingD [OF assms(2), of fs1 l1]
    show ?thesis
    proof (cases "g (fs1, [])")
      case (Inl e)
      with 2 3 show ?thesis unfolding 1 Inr r by (simp only: bind_simps)
    next
      case (Inr r2)
      with 2 3 show ?thesis unfolding 1 \<open>f (fs, []) = Inr r\<close> r
        by (simp only: bind_simps fst_conv snd_conv append_assoc)
    qed
  qed
qed

lemma appending_blocks:
  "appending (decompile_block w now jp md th a)"
  "appending (extract_rpa_block w now jp md b)"
  "appending (extract_rpi_block w now jp md c)"
  "appending (pack_block w now jp md rq)"
  unfolding appending_def decompile_block_def extract_rpa_block_def extract_rpi_block_def
    pack_block_def
  by (simp_all add: bind_def split: sum.splits prod.splits)


lemma appending_process_modes: "appending (process_modes w now jp md th rq a b c)"
proof -
  have "process_modes w now jp md th rq a b c =
      (\<lambda>st. bind (bind (bind (decompile_block w now jp md th a st)
                 (extract_rpa_block w now jp md b)) (extract_rpi_block w now jp md c))
                 (pack_block w now jp md rq))"
    by (rule ext) (simp add: process_modes_def bind_def split: sum.splits)
  then show ?thesis
    by (simp only: appending_bind appending_blocks)
qed

lemma process_modes_from:
  "process_modes w now jp md th rq a b c (fs, []) = Inr (fs1, l) \<Longrightarrow>
   process_modes w now jp md th rq a b c (fs, lg) = Inr (fs1, lg @ l)"
  using appendingD [OF appending_process_modes, of w now jp md th rq a b c fs lg] by simp

lemma process_modes_auto_logs:
  assumes "process_modes w now jp Decompile th rq a b c (fs, []) = Inr (fs1, l1)"
    and "process_modes w now jp Extract_rpa th rq a b c (fs1, []) = Inr (fs2, l2)"
    and "process_modes w now jp Extract_rpi th rq a b c (fs2, []) = Inr (fs3, l3)"
    and "process_modes w now jp Pack_rpa th rq a b c (fs3, []) = Inr (fs4, l4)"
  shows "process_modes w now jp Auto th rq a b c (fs, []) = Inr (fs4, l1 @ l2 @ l3 @ l4)"
  unfolding process_modes_auto_seq [of w now jp th rq a b c "(fs, [])"] assms(1) bind_simps
    process_modes_from [OF assms(2), of l1] process_modes_from [OF assms(3), of "l1 @ l2"]
    process_modes_from [OF assms(4), of "(l1 @ l2) @ l3"]
  by simp

lemma no_files_found:
  "md \<in> {Auto, Decompile} \<Longrightarrow>
     decompile_block w now jp md th [] st = Inr (fst st, snd st @ [''[decompile] No .rpyc files found.''])"
  "md \<in> {Auto, Extract_rpa} \<Longrightarrow>
     extract_rpa_block w now jp md [] st = Inr (fst st, snd st @ [''[extract_rpa] No .rpa files found.''])"
  "md \<in> {Auto, Extract_rpi} \<Longrightarrow>
     extract_rpi_block w now jp md [] st = Inr (fst st, snd st @ [''[extract_rpi] No .rpi files found.''])"
  by (simp_all add: decompile_block_def extract_rpa_block_def extract_rpi_block_def)

text \<open>
  Claim C4 (as amended).  Over the candidate lists that \<open>process_job\<close> takes once from the
  input subtree, the mode \<open>auto\<close> is the mode \<open>decompile\<close>, then \<open>extract_rpa\<close>, then
  \<open>extract_rpi\<close>, then \<open>pack_rpa\<close>, each started on the disk and the log the one before left,
  whatever that one found or logged, as long as the one before returns: an exception that
  one of them raises ends \<open>auto\<close> with that exception and the later modes do not run.  When
  each of the four, started on an empty log, returns, the log of \<open>auto\<close> is their logs in
  that order; and a mode of the first three whose candidate list is empty leaves the disk
  as it is and appends its ``no files found'' line, in \<open>auto\<close> as on its own.
\<close>

theorem auto_is_each_mode_in_order:
  "process_modes w now jp Auto th rq a b c st =
     bind (process_modes w now jp Decompile th rq a b c st) (\<lambda>st1.
     bind (process_modes w now jp Extract_rpa th rq a b c st1) (\<lambda>st2.
     bind (process_modes w now jp Extract_rpi th rq a b c st2) (\<lambda>st3.
     process_modes w now jp Pack_rpa th rq a b c st3)))
   \<and> (process_modes w now jp Decompile th rq a b c (fs, []) = Inr (fs1, l1) \<and>
      process_modes w now jp Extract_rpa th rq a b c (fs1, []) = Inr (fs2, l2) \<and>
      process_modes w now jp Extract_rpi th rq a b c (fs2, []) = Inr (fs3, l3) \<and>
      process_modes w now jp Pack_rpa th rq a b c (fs3, []) = Inr (fs4, l4) \<longrightarrow>
      process_modes w now jp Auto th rq a b c (fs, []) = Inr (fs4, l1 @ l2 @ l3 @ l4))
   \<and> process_modes w now jp Decompile th rq [] b c st
       = Inr (fst st, snd st @ [''[decompile] No .rpyc files found.''])
   \<and> process_modes w now jp Extract_rpa th rq a [] c st
       = Inr (fst st, snd st @ [''[extract_rpa] No .rpa files found.''])
   \<and> process_modes w now jp Extract_rpi th rq a b [] st
       = Inr (fst st, snd st @ [''[extract_rpi] No .rpi files found.''])
   \<and> process_modes w now jp Auto th rq [] [] [] st
       = pack_block w now jp Auto rq
           (fst st, snd st @ [''[decompile] No .rpyc files found.'',
                              ''[extract_rpa] No .rpa files found.'',
                              ''[extract_rpi] No .rpi files found.''])
   \<and> (process_modes w now jp Decompile th rq a b c st = Inl e \<longrightarrow>
        process_modes w now jp Auto th rq a b c st = Inl e)
   \<and> (process_modes w now jp Decompile th rq a b c st = Inr st1 \<and>
      process_modes w now jp Extract_rpa th rq a b c st1 = Inl e \<longrightarrow>
        process_modes w now jp Auto th rq a b c st = Inl e)
   \<and> (process_modes w now jp Decompile th rq a b c st = Inr st1 \<and>
      process_modes w now jp Extract_rpa th rq a b c st1 = Inr st2 \<and>
      process_modes w now jp Extract_rpi th rq a b c st2 = Inl e \<longrightarrow>
        process_modes w now jp Auto th rq a b c st = Inl e)"
proof (intro conjI impI)
  show "process_modes w now jp Auto th rq a b c st =
     bind (process_modes w now jp Decompile th rq a b c st) (\<lambda>st1.
     bind (process_modes w now jp Extract_rpa th rq a b c st1) (\<lambda>st2.
     bind (process_modes w now jp Extract_rpi th rq a b c st2) (\<lambda>st3.
     process_modes w now jp Pack_rpa th rq a b c st3)))"
    by (rule process_modes_auto_seq)
  show "process_modes w now jp Decompile th rq [] b c st
       = Inr (fst st, snd st @ [''[decompile] No .rpyc files found.''])"
    by (simp add: process_modes_decompile no_files_found)
  show "process_modes w now jp Extract_rpa th rq a [] c st
       = Inr (fst st, snd st @ [''[extract_rpa] No .rpa files found.''])"
    by (simp add: process_modes_extract_rpa no_files_found)
  show "process_modes w now jp Extract_rpi th rq a b [] st
       = Inr (fst st, snd st @ [''[extract_rpi] No .rpi files found.''])"
    by (simp add: process_modes_extract_rpi no_files_found)
  show "process_modes w now jp Auto th rq [] [] [] st
       = pack_block w now jp Auto rq
           (fst st, snd st @ [''[decompile] No .rpyc files found.'',
                              ''[extract_rpa] No .rpa files found.'',
                              ''[extract_rpi] No .rpi files found.''])"
    by (simp add: process_modes_def no_files_found)
next
  assume "process_modes w now jp Decompile th rq a b c (fs, []) = Inr (fs1, l1) \<and>
      process_modes w now jp Extract_rpa th rq a b c (fs1, []) = Inr (fs2, l2) \<and>
      process_modes w now jp Extract_rpi th rq a b c (fs2, []) = Inr (fs3, l3) \<and>
      process_modes w now jp Pack_rpa th rq a b c (fs3, []) = Inr (fs4, l4)"
  then show "process_modes w now jp Auto th rq a b c (fs, []) = Inr (fs4, l1 @ l2 @ l3 @ l4)"
    using process_modes_auto_logs by blast
next
  assume "process_modes w now jp Decompile th rq a b c st = Inl e"
  then show "process_modes w now jp Auto th rq a b c st = Inl e"
    unfolding process_modes_auto_seq [of w now jp th rq a b c st] by (simp only: bind_simps)
next
  assume "process_modes w now jp Decompile th rq a b c st = Inr st1 \<and>
      process_modes w now jp Extract_rpa th rq a b c st1 = Inl e"
  then show "process_modes w now jp Auto th rq a b c st = Inl e"
    unfolding process_modes_auto_seq [of w now jp th rq a b c st] by (simp only: bind_simps)
next
  assume "process_modes w now jp Decompile th rq a b c st = Inr st1 \<and>
      process_modes w now jp Extract_rpa th rq a b c st1 = Inr st2 \<and>
      process_modes w now jp Extract_rpi th rq a b c st2 = Inl e"
  then show "process_modes w now jp Auto th rq a b c st = Inl e"
    unfolding process_modes_auto_seq [of w now jp th rq a b c st] by (simp only: bind_simps)
qed

lemma bad_key_pack_mode:
  "process_modes quiet_world 5 (job_paths quiet_world ''j1'') Pack_rpa False bad_key_request [] [] []
     (pack_disk, []) =
   Inr (pack_disk @ [([''jobs'', ''j1'', ''output'', ''_packroot''], Dir),
                     ([''jobs'', ''j1'', ''output'', ''_packroot'', ''a.txt''], File ''hello'' 5)],
        [''[pack] Invalid key_hex: '' @ py_repr ''0xZZZZ'' @ '' (expected hex like 0x1234)''])"
  by (simp add: process_modes_pack pack_block_def pack_source_def pack_rpa_from_dir_def
      staged_sources_def bad_key_unparsable [unfolded bad_key_request_def, simplified]
      bad_key_request_def pack_disk_def quiet_world_def path_defs fs_defs validate_defs Let_def)

text \<open>The archive of \<open>rpa_disk\<close> in a world where every command runs into its timeout.\<close>

lemma slow_extract_rpa:
  "process_modes slow_world 5 (job_paths slow_world ''j1'') Extract_rpa False good_request
     [] [[''jobs'', ''j1'', ''input'', ''data.rpa'']] [] (rpa_disk, lg) = Inl TimeoutExpired"
  by (simp add: process_modes_extract_rpa extract_rpa_block_def extract_rpa_with_unrpa_def
      run_cmd_def slow_world_def quiet_world_def rpa_disk_def stem_def suffix_of_def
      path_defs fs_defs)

theorem auto_is_each_mode_in_order_witness:
  "process_modes quiet_world 5 (job_paths quiet_world ''j1'') Auto False bad_key_request [] [] []
     (pack_disk, []) =
   Inr (pack_disk @ [([''jobs'', ''j1'', ''output'', ''_packroot''], Dir),
                     ([''jobs'', ''j1'', ''output'', ''_packroot'', ''a.txt''], File ''hello'' 5)],
        [''[decompile] No .rpyc files found.'', ''[extract_rpa] No .rpa files found.'',
         ''[extract_rpi] No .rpi files found.'',
         ''[pack] Invalid key_hex: '' @ py_repr ''0xZZZZ'' @ '' (expected hex like 0x1234)''])
   \<and> process_modes slow_world 5 (job_paths slow_world ''j1'') Auto False good_request
        [] [[''jobs'', ''j1'', ''input'', ''data.rpa'']] [] (rpa_disk, []) = Inl TimeoutExpired"
proof -
  let ?jp = "job_paths quiet_world ''j1''"
  have d: "process_modes quiet_world 5 ?jp Decompile False bad_key_request [] [] [] (pack_disk, [])
             = Inr (pack_disk, [''[decompile] No .rpyc files found.''])"
    by (simp add: process_modes_decompile no_files_found)
  have ra: "process_modes quiet_world 5 ?jp Extract_rpa False bad_key_request [] [] [] (pack_disk, [])
             = Inr (pack_disk, [''[extract_rpa] No .rpa files found.''])"
    by (simp add: process_modes_extract_rpa no_files_found)
  have ri: "process_modes quiet_world 5 ?jp Extract_rpi False bad_key_request [] [] [] (pack_disk, [])
             = Inr (pack_disk, [''[extract_rpi] No .rpi files found.''])"
    by (simp add: process_modes_extract_rpi no_files_found)
  have sd: "process_modes slow_world 5 (job_paths slow_world ''j1'') Decompile False good_request
              [] [[''jobs'', ''j1'', ''input'', ''data.rpa'']] [] (rpa_disk, [])
            = Inr (rpa_disk, [''[decompile] No .rpyc files found.''])"
    by (simp add: process_modes_decompile no_files_found)
  from auto_is_each_mode_in_order [THEN conjunct2, THEN conjunct1, rule_format,
      OF conjI [OF d conjI [OF ra conjI [OF ri bad_key_pack_mode]]]]
    auto_is_each_mode_in_order [THEN conjunct2, THEN conjunct2, THEN conjunct2, THEN conjunct2,
      THEN conjunct2, THEN conjunct2, THEN conjunct2, THEN conjunct1, rule_format,
      OF conjI [OF sd slow_extract_rpa]]
  show ?thesis by simp
qed

text \<open>
  The claim as first stated fails: in a world where the extraction command runs into its
  timeout, the request for \<open>extract_rpi\<close> alone is answered with its ``no files found''
  line, but under \<open>auto\<close> the exception of \<open>extract_rpa\<close> ends the request and neither
  \<open>extract_rpi\<close> nor \<open>pack_rpa\<close> runs.
\<close>

theorem auto_counterexample:
  "process_job slow_world 5 ''j1'' Auto False good_request rpa_disk = Inl TimeoutExpired
   \<and> \<not> isl (process_job slow_world 5 ''j1'' Extract_rpi False good_request rpa_disk)
   \<and> resp_logs (snd (projr (process_job slow_world 5 ''j1'' Extract_rpi False good_request rpa_disk)))
       = [''[extract_rpi] No .rpi files found.'']"
  by (simp add: process_job_def process_job_run_def replace_output_def touch_meta_def
      process_modes_def decompile_block_def extract_rpa_block_def extract_rpi_block_def
      pack_block_def extract_rpa_with_unrpa_def run_cmd_def walk_tree_def mode_str_def
      slow_world_def quiet_world_def rpa_disk_def good_request_def stem_def suffix_of_def
      path_defs fs_defs Let_def)


section \<open>The output subtree is replaced\<close>

lemma wf_parent: "wf_fs fs \<Longrightarrow> exists fs p \<Longrightarrow> p \<noteq> [] \<Longrightarrow> is_dir fs (butlast p)"
  by (auto simp: wf_fs_def list_all_iff exists_def node_at_def dest!: map_of_SomeD)

lemma wf_absent_below:
  "wf_fs fs \<Longrightarrow> \<not> exists fs d \<Longrightarrow> prefix d p \<Longrightarrow> \<not> exists fs p"
proof (induction p rule: rev_induct)
  case Nil
  then show ?case by simp
next
  case (snoc x q)
  show ?case
  proof
    assume e: "exists fs (q @ [x])"
    with snoc.prems(1) have "is_dir fs q" using wf_parent [of fs "q @ [x]"] by simp
    then have q: "exists fs q" by (auto simp: is_dir_def exists_def split: option.splits)
    from snoc.prems(3) have "d = q @ [x] \<or> prefix d q" by simp
    with e q snoc show False by auto
  qed
qed

lemma mkdir_parents_not_file:
  "mkdir_parents p fs = Inr fs' \<Longrightarrow> ''..'' \<notin> set p \<Longrightarrow> \<not> is_file fs p"
proof
  assume m: "mkdir_parents p fs = Inr fs'" and np: "''..'' \<notin> set p" and "is_file fs p"
  then obtain data t where "node_at fs p = Some (File data t)"
    by (auto simp: is_file_def split: option.splits node.splits)
  from mkdir_parents_keeps [OF m this] mkdir_parents_is_dir [OF m np] show False
    by (simp add: is_dir_def)
qed

lemma node_at_cleared:
  "node_at (if exists fs d then rmtree d fs else fs) p =
     (if is_dir fs d \<and> prefix d p \<and> p \<noteq> [] then None else node_at fs p)"
proof (cases "is_dir fs d")
  case True
  then have "exists fs d" by (auto simp: is_dir_def exists_def split: option.splits)
  with True show ?thesis by (simp add: node_at_rmtree)
next
  case False
  then show ?thesis by (simp add: rmtree_def)
qed

lemma replace_output_empty:
  assumes wf: "wf_fs fs" and r: "replace_output jp fs = Inr fs0" and ne: "out jp \<noteq> []"
    and parent: "exists fs (butlast (out jp))" and plain: "''..'' \<notin> set (out jp)"
  shows "is_dir fs0 (out jp)"
    and "strict_prefix (out jp) p \<Longrightarrow> node_at fs0 p = None"
    and "\<not> prefix (out jp) p \<Longrightarrow> node_at fs0 p = node_at fs p"
proof -
  let ?o = "out jp"
  let ?fs1 = "if exists fs ?o then rmtree ?o fs else fs"
  from r have m: "mkdir_parents ?o ?fs1 = Inr fs0" by (simp add: replace_output_def)
  then show "is_dir fs0 ?o" using plain by (rule mkdir_parents_is_dir)
  have nf: "\<not> is_file fs ?o"
  proof
    assume f: "is_file fs ?o"
    then have "\<not> is_dir fs ?o"
      by (auto simp: is_file_def is_dir_def split: option.splits node.splits)
    then have "?fs1 = fs" by (simp add: rmtree_def)
    with mkdir_parents_not_file [OF m plain] f show False by simp
  qed
  have below: "node_at ?fs1 q = None" if "strict_prefix ?o q" for q
  proof (cases "exists fs ?o")
    case False
    with wf_absent_below [OF wf False, of q] that show ?thesis
      by (auto simp: exists_def strict_prefix_def)
  next
    case True
    with nf have "is_dir fs ?o"
      by (auto simp: exists_def is_dir_def is_file_def split: option.splits node.splits)
    moreover from that have "q \<noteq> []" by auto
    ultimately show ?thesis using that by (simp add: node_at_cleared strict_prefix_def)
  qed
  show "node_at fs0 p = None" if "strict_prefix ?o p"
  proof (rule ccontr)
    assume "node_at fs0 p \<noteq> None"
    then obtain n where n: "node_at fs0 p = Some n" by auto
    from mkdir_parents_new_at [OF m plain n] below [OF that] that show False
      by (auto simp: strict_prefix_def)
  qed
  show "node_at fs0 p = node_at fs p" if np: "\<not> prefix ?o p"
  proof -
    have 1: "node_at ?fs1 p = node_at fs p"
      using np by (simp add: node_at_cleared)
    show ?thesis
    proof (cases "node_at ?fs1 p")
      case (Some n)
      from mkdir_parents_keeps [OF m Some] Some 1 show ?thesis by simp
    next
      case None
      have "node_at fs0 p = None"
      proof (rule ccontr)
        assume "node_at fs0 p \<noteq> None"
        then obtain n where n: "node_at fs0 p = Some n" by auto
        from mkdir_parents_new_at [OF m plain n] None have "prefix p ?o" by auto
        with np have "strict_prefix p ?o" by (auto simp: strict_prefix_def)
        then have "prefix p (butlast ?o)"
          by (metis ne append_butlast_last_id prefix_snoc strict_prefix_def)
        with wf_absent_below [OF wf _ this] parent have "exists fs p" by blast
        with None 1 show False by (simp add: exists_def)
      qed
      with None 1 show ?thesis by simp
    qed
  qed
qed

lemma replace_output_same:
  assumes "is_dir fs d" "is_dir fs2 d" "out jp = d"
    and "filter (\<lambda>e. \<not> prefix d (fst e)) fs = filter (\<lambda>e. \<not> prefix d (fst e)) fs2"
  shows "replace_output jp fs = replace_output jp fs2"
  using assms by (simp add: replace_output_def rmtree_def is_dir_def exists_def split: option.splits)

lemma same_outside:
  assumes "filter (\<lambda>e. \<not> prefix d (fst e)) fs = filter (\<lambda>e. \<not> prefix d (fst e)) fs2"
    and "\<not> prefix d p"
  shows "node_at fs p = node_at fs2 p"
proof -
  have "map_of fs p = map_of (filter (\<lambda>e. \<not> prefix d (fst e)) fs) p"
    using assms(2) by (simp add: map_of_filter_fst [where P = "\<lambda>q. \<not> prefix d q"])
  also have "\<dots> = map_of fs2 p"
    unfolding assms(1) using assms(2) by (simp add: map_of_filter_fst [where P = "\<lambda>q. \<not> prefix d q"])
  finally show ?thesis by (simp add: node_at_def)
qed


text \<open>
  Claim C3.  For a request with parameters in range on an existing job whose disk is a
  tree, \<open>process_job\<close> is the replacement of the output subtree followed by everything else
  (the touch, the classification, the processors, the snapshot); where the replacement
  returns, the output directory exists, nothing is below it, and nothing outside it has
  changed; and two disks that differ only below the output directory give the same result:
  what earlier runs left in the output has no part in it.
\<close>

theorem output_is_replaced:
  assumes valid: "2 \<le> version rq \<and> version rq \<le> 3 \<and> 0 \<le> padding rq \<and> padding rq \<le> 1000000"
    and job: "exists fs (root (job_paths w job))"
    and wf: "wf_fs fs"
  shows "process_job w now job md th rq fs =
           bind (replace_output (job_paths w job) fs) (process_job_run w now job md th rq)
       \<and> (replace_output (job_paths w job) fs = Inr fs0 \<longrightarrow>
            is_dir fs0 (out (job_paths w job)) \<and>
            (\<forall>p. strict_prefix (out (job_paths w job)) p \<longrightarrow> node_at fs0 p = None) \<and>
            (\<forall>p. \<not> prefix (out (job_paths w job)) p \<longrightarrow> node_at fs0 p = node_at fs p))
       \<and> (is_dir fs (out (job_paths w job)) \<and> is_dir fs2 (out (job_paths w job)) \<and>
            filter (\<lambda>e. \<not> prefix (out (job_paths w job)) (fst e)) fs2 =
            filter (\<lambda>e. \<not> prefix (out (job_paths w job)) (fst e)) fs \<longrightarrow>
            process_job w now job md th rq fs2 = process_job w now job md th rq fs)"
proof (intro conjI impI)
  let ?jp = "job_paths w job"
  have o: "out ?jp = root ?jp @ [''output'']" by (simp add: job_paths_def Let_def)
  show "process_job w now job md th rq fs =
           bind (replace_output ?jp fs) (process_job_run w now job md th rq)"
    using valid job by (simp add: process_job_def Let_def)
  show "is_dir fs0 (out ?jp)" if "replace_output ?jp fs = Inr fs0"
    using replace_output_empty(1) [OF wf that] job out_no_parent [of w job] by (simp add: o)
  show "\<forall>p. strict_prefix (out ?jp) p \<longrightarrow> node_at fs0 p = None"
    if "replace_output ?jp fs = Inr fs0"
    using replace_output_empty(2) [OF wf that] job out_no_parent [of w job] by (simp add: o)
  show "\<forall>p. \<not> prefix (out ?jp) p \<longrightarrow> node_at fs0 p = node_at fs p"
    if "replace_output ?jp fs = Inr fs0"
    using replace_output_empty(3) [OF wf that] job out_no_parent [of w job] by (simp add: o)
  assume a: "is_dir fs (out ?jp) \<and> is_dir fs2 (out ?jp) \<and>
            filter (\<lambda>e. \<not> prefix (out ?jp) (fst e)) fs2 =
            filter (\<lambda>e. \<not> prefix (out ?jp) (fst e)) fs"
  then have same: "replace_output ?jp fs2 = replace_output ?jp fs"
    by (intro replace_output_same [of _ "out ?jp"]) simp_all
  have "\<not> prefix (out ?jp) (root ?jp)" by (simp add: o)
  with a have "node_at fs2 (root ?jp) = node_at fs (root ?jp)"
    by (intro same_outside [of "out ?jp"]) simp_all
  then have "exists fs2 (root ?jp) = exists fs (root ?jp)" by (simp add: exists_def)
  with same show "process_job w now job md th rq fs2 = process_job w now job md th rq fs"
    by (simp add: process_job_def Let_def)
qed

lemma clean_run:
  "process_job quiet_world 5 ''j1'' Decompile False good_request pack_disk =
     Inr ([([''jobs''], Dir), ([''jobs'', ''j1''], Dir),
           ([''jobs'', ''j1'', ''meta.json''], File ''{}'' 5),
           ([''jobs'', ''j1'', ''input''], Dir),
           ([''jobs'', ''j1'', ''input'', ''a.txt''], File ''hello'' 0),
           ([''jobs'', ''j1'', ''output''], Dir)],
          \<lparr>resp_job_id = ''j1'', resp_mode = ''decompile'',
           resp_output_tree =
             [node_for_dir
                [([''jobs''], Dir), ([''jobs'', ''j1''], Dir),
                 ([''jobs'', ''j1'', ''meta.json''], File ''{}'' 5),
                 ([''jobs'', ''j1'', ''input''], Dir),
                 ([''jobs'', ''j1'', ''input'', ''a.txt''], File ''hello'' 0),
                 ([''jobs'', ''j1'', ''output''], Dir)]
                [''jobs'', ''j1'', ''output''] [''jobs'', ''j1'', ''output'']],
           resp_logs = [''[decompile] No .rpyc files found.'']\<rparr>)"
  by (simp add: process_job_def process_job_run_def replace_output_def process_modes_decompile
      no_files_found touch_meta_def walk_tree_def mode_str_def
      good_request_def pack_disk_def quiet_world_def path_defs fs_defs Let_def)

theorem output_is_replaced_witness:
  "wf_fs stale_disk
   \<and> node_at stale_disk [''jobs'', ''j1'', ''output'', ''old.rpy''] = Some (File ''old'' 1)
   \<and> process_job quiet_world 5 ''j1'' Decompile False good_request stale_disk
       = process_job quiet_world 5 ''j1'' Decompile False good_request pack_disk
   \<and> node_at (fst (projr (process_job quiet_world 5 ''j1'' Decompile False good_request stale_disk)))
        [''jobs'', ''j1'', ''output'', ''old.rpy''] = None"
proof -
  have v: "2 \<le> version good_request \<and> version good_request \<le> 3 \<and> 0 \<le> padding good_request \<and>
           padding good_request \<le> 1000000"
    by (simp add: good_request_def)
  have j: "exists pack_disk (root (job_paths quiet_world ''j1''))"
    by (simp add: pack_disk_def quiet_world_def path_defs fs_defs)
  have w: "wf_fs pack_disk" "wf_fs stale_disk"
    by (simp_all add: wf_fs_def stale_disk_def pack_disk_def fs_defs)
  have d: "is_dir pack_disk (out (job_paths quiet_world ''j1'')) \<and>
           is_dir stale_disk (out (job_paths quiet_world ''j1'')) \<and>
           filter (\<lambda>e. \<not> prefix (out (job_paths quiet_world ''j1'')) (fst e)) stale_disk =
           filter (\<lambda>e. \<not> prefix (out (job_paths quiet_world ''j1'')) (fst e)) pack_disk"
    by (simp add: stale_disk_def pack_disk_def quiet_world_def path_defs fs_defs)
  from output_is_replaced [OF v j w(1), of 5 Decompile False pack_disk stale_disk,
      THEN conjunct2, THEN conjunct2, rule_format, OF d]
  have "process_job quiet_world 5 ''j1'' Decompile False good_request stale_disk
       = process_job quiet_world 5 ''j1'' Decompile False good_request pack_disk" .
  with w(2) clean_run show ?thesis
    by (simp add: stale_disk_def pack_disk_def fs_defs)
qed




section \<open>Failures of the processors\<close>

lemma outcome_simps [simp]: "outcome (Inl e) = Inl e" "outcome (Inr s) = Inr (fst s)"
  by (simp_all add: outcome_def)















































section \<open>The staging directory is left behind\<close>



text \<open>The loop copies every file it is given, and keeps what is outside the staging directory.\<close>

lemma copy_loop_keeps_outside:
  "copy_loop now sd pk srcs fs = Inr fs' \<Longrightarrow> \<not> prefix pk q \<Longrightarrow> node_at fs q = Some n \<Longrightarrow>
   node_at fs' q = Some n"
proof (induction srcs arbitrary: fs)
  case Nil
  then show ?case by simp
next
  case (Cons src srcs)
  show ?case
  proof (cases "is_dir fs src")
    case True
    with Cons.prems have "copy_loop now sd pk srcs fs = Inr fs'" by simp
    then show ?thesis using Cons.prems(2,3) by (rule Cons.IH)
  next
    case False
    with Cons.prems have
      "bind (mkdir_parents (butlast (pk @ drop (length sd) src)) fs) (\<lambda>fs1.
        bind (read_bytes fs1 src) (\<lambda>data.
        bind (write_bytes now (pk @ drop (length sd) src) data fs1)
          (copy_loop now sd pk srcs))) = Inr fs'"
      by simp
    then obtain fs1 data fs2 where
      1: "mkdir_parents (butlast (pk @ drop (length sd) src)) fs = Inr fs1" and
      2: "write_bytes now (pk @ drop (length sd) src) data fs1 = Inr fs2" and
      3: "copy_loop now sd pk srcs fs2 = Inr fs'"
      unfolding bind_eq_Inr by blast
    from mkdir_parents_keeps [OF 1 Cons.prems(3)] have "node_at fs1 q = Some n" .
    moreover from Cons.prems(2) have "q \<noteq> pk @ drop (length sd) src" by auto
    ultimately have "node_at fs2 q = Some n" using write_bytes_at [OF 2, of q] by simp
    with 3 Cons.prems(2) show ?thesis by (intro Cons.IH)
  qed
qed























end
